theory Spec2Isabelle
  imports Main "HOL-Library.AList"
begin

section \<open>Collaborators of the synchronisation code\<close>

text \<open>
  The two source files, \<^verbatim>\<open>web.ts\<close> and \<^verbatim>\<open>index.ts\<close>, are glue between the file
  system, the pipeline's inputs, the textual parsers and an HTTP client. Each collaborator
  is given here the behaviour the source relies on; the functions of the source follow in
  the next sections, statement by statement.
\<close>

subsection \<open>POSIX paths (Node's \<^verbatim>\<open>path\<close> module)\<close>

fun split_on :: "char \<Rightarrow> string \<Rightarrow> string list" where
  "split_on c [] = [[]]"
| "split_on c (x # xs) =
     (if x = c then [] # split_on c xs
      else (case split_on c xs of [] \<Rightarrow> [[x]] | s # ss \<Rightarrow> (x # s) # ss))"

fun join_sep :: "string list \<Rightarrow> string" where
  "join_sep [] = []"
| "join_sep [s] = s"
| "join_sep (s # t # ss) = s @ ''/'' @ join_sep (t # ss)"

text \<open>
  One segment of \<^verbatim>\<open>normalizeString\<close>: the result so far is kept as a stack of segments,
  last segment first. Empty segments and \<^verbatim>\<open>.\<close> are dropped, \<^verbatim>\<open>..\<close> removes the last
  segment unless there is none or it is itself \<^verbatim>\<open>..\<close>; then it is kept when the path
  is relative (\<open>allowAboveRoot\<close>).
\<close>

definition normalize_step :: "bool \<Rightarrow> string list \<Rightarrow> string \<Rightarrow> string list" where
  "normalize_step allowAboveRoot res seg =
     (if seg = [] \<or> seg = ''.'' then res
      else if seg = ''..'' then
        (case res of
           [] \<Rightarrow> (if allowAboveRoot then [''..''] else [])
         | lastseg # rest \<Rightarrow>
             (if lastseg = ''..'' then (if allowAboveRoot then ''..'' # res else res) else rest))
      else seg # res)"

definition normalizeString :: "string \<Rightarrow> bool \<Rightarrow> string" where
  "normalizeString p allowAboveRoot =
     join_sep (rev (foldl (normalize_step allowAboveRoot) [] (split_on CHR ''/'' p)))"

definition normalizePath :: "string \<Rightarrow> string" where
  "normalizePath p =
     (if p = [] then ''.''
      else
        (let isAbsolute = (hd p = CHR ''/'');
             trailingSeparator = (last p = CHR ''/'');
             q = normalizeString p (\<not> isAbsolute)
         in if q = [] then (if isAbsolute then ''/'' else if trailingSeparator then ''./'' else ''.'')
            else (if isAbsolute then ''/'' else []) @ q @ (if trailingSeparator then ''/'' else [])))"

definition join :: "string list \<Rightarrow> string" where
  "join args =
     (let parts = filter (\<lambda>a. a \<noteq> []) args
      in if parts = [] then ''.'' else normalizePath (join_sep parts))"

text \<open>The last portion of a path, trailing separators ignored.\<close>

definition basename :: "string \<Rightarrow> string" where
  "basename p =
     rev (takeWhile (\<lambda>c. c \<noteq> CHR ''/'') (dropWhile (\<lambda>c. c = CHR ''/'') (rev p)))"

text \<open>
  The extension: from the last dot of the last portion to its end; empty when there is no
  dot, when the only dot is the first character, or when the portion is \<^verbatim>\<open>..\<close>.
\<close>

definition extname :: "string \<Rightarrow> string" where
  "extname p =
     (let base = basename p;
          ext = rev (takeWhile (\<lambda>c. c \<noteq> CHR ''.'') (rev base))
      in if CHR ''.'' \<notin> set base then []
         else if length ext + 1 = length base then []
         else if base = ''..'' then []
         else CHR ''.'' # ext)"

text \<open>
  The names \<^verbatim>\<open>readdirSync\<close> returns: not empty, without a separator, and neither
  \<^verbatim>\<open>.\<close> nor \<^verbatim>\<open>..\<close>.
\<close>

definition entry_name :: "string \<Rightarrow> bool" where
  "entry_name f = (f \<noteq> [] \<and> CHR ''/'' \<notin> set f \<and> f \<noteq> ''.'' \<and> f \<noteq> ''..'')"

subsection \<open>Values, errors and the file system\<close>

text \<open>
  What \<^verbatim>\<open>JSON.parse\<close> and \<^verbatim>\<open>yaml.parse\<close> return, and what a property read can give
  in addition (\<open>JUndefined\<close>). An object is a list of its own properties in
  insertion order, with distinct keys. Numbers are the integers.
\<close>

datatype jsval =
    JUndefined
  | JNull
  | JBool bool
  | JNum int
  | JStr string
  | JArr "jsval list"
  | JObj "(string \<times> jsval) list"

text \<open>
  Everything the code can throw or reject with. \<open>AxiosError\<close> carries the message, the
  \<^verbatim>\<open>config.url\<close> of the failed request and, when a response arrived, its body; it is the
  only error whose \<^verbatim>\<open>isAxiosError\<close> is set.
\<close>

datatype error =
    Error string
  | TypeError string
  | SyntaxError string
  | SystemError string
  | AxiosError string string "jsval option"

fun message :: "error \<Rightarrow> string" where
  "message (Error m) = m"
| "message (TypeError m) = m"
| "message (SyntaxError m) = m"
| "message (SystemError m) = m"
| "message (AxiosError m u d) = m"

datatype node = File string | Dir "string list"

type_synonym fs = "string \<Rightarrow> node option"

definition existsSync :: "fs \<Rightarrow> string \<Rightarrow> bool" where
  "existsSync fs p = (fs p \<noteq> None)"

definition readFileSync :: "fs \<Rightarrow> string \<Rightarrow> error + string" where
  "readFileSync fs p =
     (case fs p of
        None \<Rightarrow> Inl (SystemError (''ENOENT: no such file or directory, open '' @ p))
      | Some (Dir names) \<Rightarrow> Inl (SystemError ''EISDIR: illegal operation on a directory, read'')
      | Some (File content) \<Rightarrow> Inr content)"

definition readdirSync :: "fs \<Rightarrow> string \<Rightarrow> error + string list" where
  "readdirSync fs p =
     (case fs p of
        None \<Rightarrow> Inl (SystemError (''ENOENT: no such file or directory, scandir '' @ p))
      | Some (File content) \<Rightarrow> Inl (SystemError (''ENOTDIR: not a directory, scandir '' @ p))
      | Some (Dir names) \<Rightarrow> Inr names)"

text \<open>
  A property read \<^verbatim>\<open>v.k\<close>, for the property names the source reads
  (\<^verbatim>\<open>installedAddons\<close>, \<^verbatim>\<open>installedFile\<close>, \<^verbatim>\<open>fileName\<close>, \<^verbatim>\<open>title\<close>), none of
  which a prototype provides: a \<^verbatim>\<open>TypeError\<close> on \<^verbatim>\<open>null\<close> and \<^verbatim>\<open>undefined\<close>, the own
  property of an object, \<^verbatim>\<open>undefined\<close> otherwise.
\<close>

definition get_prop :: "jsval \<Rightarrow> string \<Rightarrow> error + jsval" where
  "get_prop v k =
     (case v of
        JUndefined \<Rightarrow> Inl (TypeError (''Cannot read property of undefined: '' @ k))
      | JNull \<Rightarrow> Inl (TypeError (''Cannot read property of null: '' @ k))
      | JObj kvs \<Rightarrow> Inr (case map_of kvs k of None \<Rightarrow> JUndefined | Some x \<Rightarrow> x)
      | _ \<Rightarrow> Inr JUndefined)"

text \<open>
  An object literal \<^verbatim>\<open>{ ...props, ...extra }\<close>: the properties of \<open>extra\<close> are set in
  turn, a key that is already there keeps its place and takes the new value.
\<close>

definition spread :: "(string \<times> jsval) list \<Rightarrow> (string \<times> jsval) list \<Rightarrow> (string \<times> jsval) list" where
  "spread props extra = foldl (\<lambda>acc (k, v). AList.update k v acc) props extra"

subsection \<open>Inputs of the pipeline and the HTTP client\<close>

definition is_space :: "char \<Rightarrow> bool" where
  "is_space c = (c \<in> set [CHR '' '', CHR 0x09, CHR 0x0A, CHR 0x0B, CHR 0x0C, CHR 0x0D])"

definition trim :: "string \<Rightarrow> string" where
  "trim s = rev (dropWhile is_space (rev (dropWhile is_space s)))"

text \<open>
  \<^verbatim>\<open>core.getInput(name, { required })\<close>: the value of the input, trimmed (white space of
  ASCII), the empty string when the input is not set; an input that is required and
  empty is an error.
\<close>

definition getInput :: "(string \<Rightarrow> string option) \<Rightarrow> string \<Rightarrow> bool \<Rightarrow> error + string" where
  "getInput inputs name required =
     (let val = (case inputs name of None \<Rightarrow> [] | Some v \<Rightarrow> v)
      in if required \<and> val = [] then Inl (Error (''Input required and not supplied: '' @ name))
         else Inr (trim val))"

record api =
  baseURL :: string
  headers :: "(string \<times> string) list"

definition getApi :: "(string \<Rightarrow> string option) \<Rightarrow> error + api" where
  "getApi inputs =
     (case getInput inputs ''web_token'' True of
        Inl e \<Rightarrow> Inl e
      | Inr token \<Rightarrow>
          (case getInput inputs ''api'' False of
             Inl e \<Rightarrow> Inl e
           | Inr url \<Rightarrow>
               Inr \<lparr>baseURL = url,
                    headers = [(''Content-Type'', ''application/json''),
                               (''Authorization'', ''Bearer '' @ token)]\<rparr>))"

text \<open>
  A request as \<^verbatim>\<open>api.put(url, data, config)\<close> hands it to the transport: the client it
  was made on, the path, the body and the headers of the call's own configuration. A
  multipart body is the list of its parts, each a field name and a stream that reads a
  path when the transport sends it.
\<close>

datatype stream = ReadStream string

datatype body = JsonBody jsval | FormBody "(string \<times> stream) list"

record request =
  verb :: string
  client :: api
  url :: string
  data :: body
  config_headers :: "(string \<times> string) list"

definition put :: "api \<Rightarrow> string \<Rightarrow> body \<Rightarrow> (string \<times> string) list \<Rightarrow> request" where
  "put a u d hs = \<lparr>verb = ''PUT'', client = a, url = u, data = d, config_headers = hs\<rparr>"

text \<open>What the network answers to one request: a response body, or a failure.\<close>

datatype response = Ok jsval | Fail string "jsval option"

text \<open>
  What a template literal makes of an interpolated value (\<^verbatim>\<open>ToString\<close>): the words
  \<^verbatim>\<open>undefined\<close>, \<^verbatim>\<open>null\<close>, \<^verbatim>\<open>true\<close> and \<^verbatim>\<open>false\<close>, the decimal digits of a number (as
  JavaScript prints an integer of at most 21 digits), a string as it is, the
  elements of an array separated by commas, with nothing for \<^verbatim>\<open>null\<close> and \<^verbatim>\<open>undefined\<close>
  among them, and \<^verbatim>\<open>[object Object]\<close> for every object.
\<close>

fun digits :: "nat \<Rightarrow> string" where
  "digits n =
     (if n < 10 then [''0123456789'' ! n]
      else digits (n div 10) @ [''0123456789'' ! (n mod 10)])"

definition show_int :: "int \<Rightarrow> string" where
  "show_int i = (if i < 0 then CHR ''-'' # digits (nat (- i)) else digits (nat i))"

fun js_string :: "jsval \<Rightarrow> string" and js_elements :: "jsval list \<Rightarrow> string" where
  "js_string JUndefined = ''undefined''"
| "js_string JNull = ''null''"
| "js_string (JBool b) = (if b then ''true'' else ''false'')"
| "js_string (JNum i) = show_int i"
| "js_string (JStr s) = s"
| "js_string (JArr xs) = js_elements xs"
| "js_string (JObj kvs) = ''[object Object]''"
| "js_elements [] = []"
| "js_elements (x # xs) =
     (if x = JNull \<or> x = JUndefined then [] else js_string x)
       @ (if xs = [] then [] else '','' @ js_elements xs)"

text \<open>
  The observable effects, in the order they happen; a log line is the string that was
  logged.
\<close>

datatype event =
    StartGroup string
  | EndGroup
  | Info string
  | Warning string
  | Request request
  | ConsoleError string
  | SetFailed string

fun requests :: "event list \<Rightarrow> request list" where
  "requests [] = []"
| "requests (Request r # evs) = r # requests evs"
| "requests (ev # evs) = requests evs"

text \<open>
  Modelled from the spec: \<^verbatim>\<open>RawRelease\<close> and \<^verbatim>\<open>strip\<close> of \<^verbatim>\<open>./releases\<close>, a module of the
  repository that is not among the sources. The release record has a tag name and
  descriptive fields whose shape the external collaborator defines; \<open>strip\<close> is a
  parameter, a function from the record to the object that is spread into the payload.
  The parsers are parameters as well: a text gives a value or an error.
\<close>

record RawRelease =
  tag_name :: string
  descriptive :: "(string \<times> jsval) list"

record collab =
  json_parse :: "string \<Rightarrow> error + jsval"
  yaml_parse :: "string \<Rightarrow> error + jsval"
  strip :: "RawRelease \<Rightarrow> (string \<times> jsval) list"

section \<open>Release creation (\<^verbatim>\<open>createRelease\<close>, web.ts)\<close>

text \<open>\<^verbatim>\<open>Array.prototype.filter\<close> with a callback that may throw.\<close>

fun array_filter :: "(jsval \<Rightarrow> error + bool) \<Rightarrow> jsval list \<Rightarrow> error + jsval list" where
  "array_filter p [] = Inr []"
| "array_filter p (x # xs) =
     (case p x of
        Inl e \<Rightarrow> Inl e
      | Inr b \<Rightarrow>
          (case array_filter p xs of
             Inl e \<Rightarrow> Inl e
           | Inr ys \<Rightarrow> Inr (if b then x # ys else ys)))"

text \<open>
  The callback \<^verbatim>\<open>(addon) => existsSync(join(dir, "mods", addon.installedFile.fileName))\<close>;
  \<^verbatim>\<open>join\<close> refuses an argument that is not a string.
\<close>

definition addon_exists :: "fs \<Rightarrow> string \<Rightarrow> jsval \<Rightarrow> error + bool" where
  "addon_exists fs dir addon =
     (case get_prop addon ''installedFile'' of
        Inl e \<Rightarrow> Inl e
      | Inr f \<Rightarrow>
          (case get_prop f ''fileName'' of
             Inl e \<Rightarrow> Inl e
           | Inr n \<Rightarrow>
               (case n of
                  JStr s \<Rightarrow> Inr (existsSync fs (join [dir, ''mods'', s]))
                | _ \<Rightarrow> Inl (TypeError ''The path argument must be of type string''))))"

text \<open>\<^verbatim>\<open>cfData.installedAddons.filter(...)\<close>: only an array has the method.\<close>

definition filter_installedAddons :: "fs \<Rightarrow> string \<Rightarrow> jsval \<Rightarrow> error + jsval list" where
  "filter_installedAddons fs dir cfData =
     (case get_prop cfData ''installedAddons'' of
        Inl e \<Rightarrow> Inl e
      | Inr (JArr addons) \<Rightarrow> array_filter (addon_exists fs dir) addons
      | Inr _ \<Rightarrow> Inl (TypeError ''cfData.installedAddons.filter is not a function''))"

text \<open>
  \<^verbatim>\<open>createRelease(release, dir)\<close> with the answer of the network to its one request:
  the effects, and the error it rejects with or the response body it returns.
\<close>

definition createRelease ::
  "collab \<Rightarrow> (string \<Rightarrow> string option) \<Rightarrow> fs \<Rightarrow> RawRelease \<Rightarrow> string \<Rightarrow> response
     \<Rightarrow> event list \<times> (error + jsval)" where
  "createRelease col inputs fs release dir resp =
     (case getApi inputs of
        Inl e \<Rightarrow> ([], Inl e)
      | Inr a \<Rightarrow>
          (let tag = tag_name release;
               cfFile = join [dir, ''minecraftinstance.json'']
           in if \<not> existsSync fs cfFile then ([], Inl (Error ''minecraftinstance.json file missing''))
              else
                (case readFileSync fs cfFile of
                   Inl e \<Rightarrow> ([], Inl e)
                 | Inr content \<Rightarrow>
                     (case json_parse col content of
                        Inl e \<Rightarrow> ([], Inl e)
                      | Inr cfData \<Rightarrow>
                          (case filter_installedAddons fs dir cfData of
                             Inl e \<Rightarrow> ([], Inl e)
                           | Inr installedAddons \<Rightarrow>
                               (let u = ''/pack/release/'' @ tag;
                                    req = put a u
                                      (JsonBody (JObj (spread [(''installedAddons'', JArr installedAddons)]
                                                        (strip col release)))) []
                                in (case resp of
                                      Fail m d \<Rightarrow> ([Request req], Inl (AxiosError m u d))
                                    | Ok d \<Rightarrow>
                                        ([Request req,
                                          Info (''Created release for version ''
                                                @ [CHR 0x27] @ tag @ [CHR 0x27])],
                                         Inr d))))))))"

section \<open>The web update (\<^verbatim>\<open>updateWeb\<close>, web.ts)\<close>

definition webDir :: string where
  "webDir = ''web''"

text \<open>
  Each branch of \<^verbatim>\<open>updateWeb\<close> is the promise of an async function with at most one
  \<^verbatim>\<open>await\<close>, on the \<^verbatim>\<open>put\<close> it issued. A branch is therefore settled when the function
  returned or threw before its request, or it awaits the answer to its request, with what
  remains to be done after the answer.
\<close>

datatype outcome = Fulfilled | Rejected error

datatype continuation = PageUploaded jsval | DataUpdated | AssetsUpdated

datatype branch = Settled outcome | Awaiting string continuation

fun array_map :: "('a \<Rightarrow> error + 'b) \<Rightarrow> 'a list \<Rightarrow> error + 'b list" where
  "array_map f [] = Inr []"
| "array_map f (x # xs) =
     (case f x of
        Inl e \<Rightarrow> Inl e
      | Inr y \<Rightarrow> (case array_map f xs of Inl e \<Rightarrow> Inl e | Inr ys \<Rightarrow> Inr (y # ys)))"

text \<open>The callback of \<^verbatim>\<open>pages.map\<close>: the file is read before the extension is looked at.\<close>

definition parse_page :: "collab \<Rightarrow> fs \<Rightarrow> string \<Rightarrow> error + jsval" where
  "parse_page col fs page =
     (let ext = extname page
      in case readFileSync fs page of
           Inl e \<Rightarrow> Inl e
         | Inr content \<Rightarrow>
             (if ext = ''.json'' then json_parse col content
              else if ext = ''.yml'' then yaml_parse col content
              else Inr (JObj [])))"

text \<open>
  \<^verbatim>\<open>updatePages()\<close> is not async: it throws (\<open>Inl\<close>), or returns one promise for each
  page, the request of each already issued.
\<close>

definition updatePages ::
  "collab \<Rightarrow> (string \<Rightarrow> string option) \<Rightarrow> fs \<Rightarrow> error + (event list \<times> branch list)" where
  "updatePages col inputs fs =
     (case getApi inputs of
        Inl e \<Rightarrow> Inl e
      | Inr a \<Rightarrow>
          (let pageDir = join [webDir, ''pages'']
           in if \<not> existsSync fs pageDir then Inr ([Warning ''No pages defined''], [])
              else
                (case readdirSync fs pageDir of
                   Inl e \<Rightarrow> Inl e
                 | Inr names \<Rightarrow>
                     (let pages = map (\<lambda>f. join [pageDir, f]) names
                      in case array_map (parse_page col fs) pages of
                           Inl e \<Rightarrow> Inl e
                         | Inr parsed \<Rightarrow>
                             Inr (map (\<lambda>content. Request (put a ''pack/page'' (JsonBody content) [])) parsed,
                                  map (\<lambda>content. Awaiting ''pack/page'' (PageUploaded content)) parsed)))))"

definition updateData ::
  "collab \<Rightarrow> (string \<Rightarrow> string option) \<Rightarrow> fs \<Rightarrow> event list \<times> branch" where
  "updateData col inputs fs =
     (case getApi inputs of
        Inl e \<Rightarrow> ([], Settled (Rejected e))
      | Inr a \<Rightarrow>
          (let file = join [webDir, ''pack.yml'']
           in if \<not> existsSync fs file then ([Warning ''Skip updating pack data''], Settled Fulfilled)
              else
                (case readFileSync fs file of
                   Inl e \<Rightarrow> ([], Settled (Rejected e))
                 | Inr content \<Rightarrow>
                     (case yaml_parse col content of
                        Inl e \<Rightarrow> ([], Settled (Rejected e))
                      | Inr packData \<Rightarrow>
                          ([Request (put a ''/pack'' (JsonBody packData) [])],
                           Awaiting ''/pack'' DataUpdated)))))"

text \<open>
  \<^verbatim>\<open>createReadStream\<close> opens its file only when the stream is read; \<^verbatim>\<open>getHeaders()\<close> of
  the form gives the content type with the boundary the form drew at random, an input
  here.
\<close>

definition createReadStream :: "string \<Rightarrow> stream" where
  "createReadStream p = ReadStream p"

definition getHeaders :: "string \<Rightarrow> (string \<times> string) list" where
  "getHeaders boundary = [(''content-type'', ''multipart/form-data; boundary='' @ boundary)]"

definition updateAssets ::
  "(string \<Rightarrow> string option) \<Rightarrow> fs \<Rightarrow> string \<Rightarrow> event list \<times> branch" where
  "updateAssets inputs fs boundary =
     (case getApi inputs of
        Inl e \<Rightarrow> ([], Settled (Rejected e))
      | Inr a \<Rightarrow>
          (let assetsDir = join [webDir, ''assets'']
           in if \<not> existsSync fs assetsDir then ([Warning ''No assets defined''], Settled Fulfilled)
              else
                (case readdirSync fs assetsDir of
                   Inl e \<Rightarrow> ([], Settled (Rejected e))
                 | Inr names \<Rightarrow>
                     (let assets = map (\<lambda>f. join [assetsDir, f]) names;
                          assetsData =
                            foldl (\<lambda>form img. form @ [(basename img, createReadStream img)]) [] assets
                      in ([Request (put a ''/pack/assets'' (FormBody assetsData) (getHeaders boundary))],
                          Awaiting ''/pack/assets'' AssetsUpdated)))))"

text \<open>What an async function does after its \<^verbatim>\<open>await\<close>, once the request succeeded.\<close>

fun resume :: "continuation \<Rightarrow> event list \<times> outcome" where
  "resume (PageUploaded content) =
     (case get_prop content ''title'' of
        Inl e \<Rightarrow> ([], Rejected e)
      | Inr t \<Rightarrow> ([Info (''Uploaded '' @ js_string t)], Fulfilled))"
| "resume DataUpdated = ([Info ''Updated pack data''], Fulfilled)"
| "resume AssetsUpdated = ([Info ''Updated assets''], Fulfilled)"

definition settle :: "string \<Rightarrow> continuation \<Rightarrow> response \<Rightarrow> event list \<times> outcome" where
  "settle u k resp =
     (case resp of
        Fail m d \<Rightarrow> ([], Rejected (AxiosError m u d))
      | Ok d \<Rightarrow> resume k)"

text \<open>
  \<^verbatim>\<open>Promise.all\<close>: rejected with the reason of the first of its promises that rejects,
  fulfilled once all of them are fulfilled. For promises that are settled when it is
  called, the reactions run in the order of the array.
\<close>

datatype promise = PPending | PFulfilled | PRejected error

fun first_rejection :: "branch list \<Rightarrow> error option" where
  "first_rejection [] = None"
| "first_rejection (Settled (Rejected e) # bs) = Some e"
| "first_rejection (b # bs) = first_rejection bs"

definition all_fulfilled :: "branch list \<Rightarrow> bool" where
  "all_fulfilled bs = list_all (\<lambda>b. b = Settled Fulfilled) bs"

definition promise_all :: "branch list \<Rightarrow> promise" where
  "promise_all bs =
     (case first_rejection bs of
        Some e \<Rightarrow> PRejected e
      | None \<Rightarrow> if all_fulfilled bs then PFulfilled else PPending)"

text \<open>
  The state of one run: the branches, the promise the caller awaits and the effects so
  far. When the awaited promise settles, \<^verbatim>\<open>updateWeb\<close> goes on to \<^verbatim>\<open>endGroup()\<close>, or the
  rejection travels up to whoever handles it: \<open>h\<close> gives the effects of that handler.
\<close>

record state =
  branches :: "branch list"
  result :: promise
  trace :: "event list"

definition finish :: "(error \<Rightarrow> event list) \<Rightarrow> promise \<Rightarrow> event list" where
  "finish h p = (case p of PPending \<Rightarrow> [] | PFulfilled \<Rightarrow> [EndGroup] | PRejected e \<Rightarrow> h e)"

text \<open>
  The synchronous part of \<^verbatim>\<open>updateWeb()\<close>: \<^verbatim>\<open>startGroup\<close>, then the array
  \<^verbatim>\<open>[...updatePages(), updateData(), updateAssets()]\<close> is built from left to right, then
  \<^verbatim>\<open>Promise.all\<close> is awaited.
\<close>

definition updateWeb_start ::
  "collab \<Rightarrow> (string \<Rightarrow> string option) \<Rightarrow> fs \<Rightarrow> string \<Rightarrow> (error \<Rightarrow> event list) \<Rightarrow> state" where
  "updateWeb_start col inputs fs boundary h =
     (case updatePages col inputs fs of
        Inl e \<Rightarrow>
          \<lparr>branches = [], result = PRejected e, trace = [StartGroup ''Updating web''] @ h e\<rparr>
      | Inr (evs, pageBranches) \<Rightarrow>
          (let (evs2, dataBranch) = updateData col inputs fs;
               (evs3, assetsBranch) = updateAssets inputs fs boundary;
               bs = pageBranches @ [dataBranch, assetsBranch];
               p = promise_all bs
           in \<lparr>branches = bs, result = p,
                trace = [StartGroup ''Updating web''] @ evs @ evs2 @ evs3 @ finish h p\<rparr>))"

text \<open>
  The answer to the request of branch \<open>i\<close> arrives: the branch runs to its end, and the
  awaited promise, if still pending, is rejected by a rejected branch and fulfilled by
  the last fulfilment. An answer for a branch that is not waiting changes nothing.
\<close>

definition deliver :: "(error \<Rightarrow> event list) \<Rightarrow> state \<Rightarrow> nat \<times> response \<Rightarrow> state" where
  "deliver h st d =
     (let i = fst d; resp = snd d
      in if i < length (branches st) then
           (case branches st ! i of
              Settled out \<Rightarrow> st
            | Awaiting u k \<Rightarrow>
                (let (evs, out) = settle u k resp;
                     bs = (branches st)[i := Settled out];
                     p = (case result st of
                            PPending \<Rightarrow>
                              (case out of
                                 Rejected e \<Rightarrow> PRejected e
                               | Fulfilled \<Rightarrow> if all_fulfilled bs then PFulfilled else PPending)
                          | q \<Rightarrow> q)
                 in \<lparr>branches = bs, result = p,
                      trace = trace st @ evs @ (if result st = PPending then finish h p else [])\<rparr>))
         else st)"

text \<open>
  \<^verbatim>\<open>updateWeb()\<close> under a network that answers the requests in the order and with the
  responses of \<open>net\<close>, each answer naming the branch it is for. A list that leaves a
  branch out describes the run up to a moment when that request is still in flight.
\<close>

definition updateWeb ::
  "collab \<Rightarrow> (string \<Rightarrow> string option) \<Rightarrow> fs \<Rightarrow> string \<Rightarrow> (error \<Rightarrow> event list)
     \<Rightarrow> (nat \<times> response) list \<Rightarrow> state" where
  "updateWeb col inputs fs boundary h net =
     foldl (deliver h) (updateWeb_start col inputs fs boundary h) net"

section \<open>The entry point (index.ts)\<close>

fun isAxiosError :: "error \<Rightarrow> bool" where
  "isAxiosError (AxiosError m u d) = True"
| "isAxiosError e = False"

text \<open>
  \<^verbatim>\<open>github.context\<close>, as far as \<^verbatim>\<open>web()\<close> reads it: the name of the event and the release
  of its payload.
\<close>

record github_context =
  eventName :: string
  payload_release :: RawRelease

definition prepend :: "event list \<Rightarrow> state \<Rightarrow> state" where
  "prepend evs st = st\<lparr>trace := evs @ trace st\<rparr>"

text \<open>
  \<^verbatim>\<open>web()\<close>: on a release event \<^verbatim>\<open>createRelease\<close> is awaited, with the default directory,
  and its rejection is the rejection of \<^verbatim>\<open>web()\<close>; then \<^verbatim>\<open>updateWeb()\<close> is awaited.
\<close>

definition web ::
  "collab \<Rightarrow> (string \<Rightarrow> string option) \<Rightarrow> fs \<Rightarrow> github_context \<Rightarrow> response \<Rightarrow> string
     \<Rightarrow> (error \<Rightarrow> event list) \<Rightarrow> (nat \<times> response) list \<Rightarrow> state" where
  "web col inputs fs ctx resp boundary h net =
     (if eventName ctx = ''release'' then
        (case createRelease col inputs fs (payload_release ctx) [] resp of
           (evs, Inl e) \<Rightarrow> \<lparr>branches = [], result = PRejected e, trace = evs @ h e\<rparr>
         | (evs, Inr d) \<Rightarrow> prepend evs (updateWeb col inputs fs boundary h net))
      else updateWeb col inputs fs boundary h net)"


text \<open>
  The callback of \<^verbatim>\<open>run().catch\<close>: a transport error is logged on the console, its
  \<^verbatim>\<open>config.url\<close> and the string its template literal makes of the body of the response
  (of \<^verbatim>\<open>undefined\<close> without a response), and thrown again; any other error goes to
  \<^verbatim>\<open>core.setFailed\<close>.
\<close>

definition on_error :: "error \<Rightarrow> event list" where
  "on_error e =
     (case e of
        AxiosError m u d \<Rightarrow>
          [ConsoleError (''API Request failed: '' @ u),
           ConsoleError (''   '' @ js_string (case d of None \<Rightarrow> JUndefined | Some v \<Rightarrow> v))]
      | _ \<Rightarrow> [SetFailed (message e)])"




section \<open>Notions the properties are stated with\<close>

text \<open>
  The addon list of the release payload: the \<^verbatim>\<open>installedAddons\<close> property of the body of
  the one request that was issued.
\<close>

definition payload_addons :: "request \<Rightarrow> jsval option" where
  "payload_addons req =
     (case data req of JsonBody (JObj kvs) \<Rightarrow> map_of kvs ''installedAddons'' | _ \<Rightarrow> None)"

definition sent_addons :: "event list \<Rightarrow> jsval list option" where
  "sent_addons evs =
     (case requests evs of
        [req] \<Rightarrow> (case payload_addons req of Some (JArr xs) \<Rightarrow> Some xs | _ \<Rightarrow> None)
      | _ \<Rightarrow> None)"

text \<open>
  An entry of \<^verbatim>\<open>installedAddons\<close> as the interface \<^verbatim>\<open>MinecraftInstance\<close> declares it,
  as far as the code reads it: an object whose \<^verbatim>\<open>installedFile\<close> is an object with a
  string \<^verbatim>\<open>fileName\<close>; and that file name.
\<close>

definition is_addon :: "jsval \<Rightarrow> bool" where
  "is_addon addon =
     (case addon of
        JObj kvs \<Rightarrow>
          (case map_of kvs ''installedFile'' of
             Some (JObj f) \<Rightarrow> (case map_of f ''fileName'' of Some (JStr s) \<Rightarrow> True | _ \<Rightarrow> False)
           | _ \<Rightarrow> False)
      | _ \<Rightarrow> False)"

definition fileName :: "jsval \<Rightarrow> string" where
  "fileName addon =
     (case addon of
        JObj kvs \<Rightarrow>
          (case map_of kvs ''installedFile'' of
             Some (JObj f) \<Rightarrow> (case map_of f ''fileName'' of Some (JStr s) \<Rightarrow> s | _ \<Rightarrow> [])
           | _ \<Rightarrow> [])
      | _ \<Rightarrow> [])"

text \<open>A caller that does nothing on a rejection: \<^verbatim>\<open>updateWeb()\<close> looked at on its own.\<close>

definition unhandled :: "error \<Rightarrow> event list" where
  "unhandled e = []"

text \<open>The requests to one endpoint, and whether a branch is settled.\<close>

definition requests_to :: "string \<Rightarrow> event list \<Rightarrow> request list" where
  "requests_to u evs = filter (\<lambda>r. url r = u) (requests evs)"

fun settled :: "branch \<Rightarrow> bool" where
  "settled (Settled out) = True"
| "settled (Awaiting u k) = False"

text \<open>
  The value a page file stands for: what the parser of its extension makes of its
  content, the empty object for any other extension.
\<close>

definition page_value :: "collab \<Rightarrow> string \<Rightarrow> string \<Rightarrow> jsval \<Rightarrow> bool" where
  "page_value col f content v =
     (if extname f = ''.json'' then json_parse col content = Inr v
      else if extname f = ''.yml'' then yaml_parse col content = Inr v
      else v = JObj [])"

text \<open>A handler that issues no request.\<close>

definition quiet :: "(error \<Rightarrow> event list) \<Rightarrow> bool" where
  "quiet h = (\<forall>e. requests (h e) = [])"

text \<open>The endpoint and the body of a request.\<close>

definition wire :: "request \<Rightarrow> string \<times> string \<times> string \<times> body" where
  "wire r = (verb r, baseURL (client r), url r, data r)"

text \<open>
  What holds of the awaited promise and the branches at every moment of a run; \<open>thrown\<close>
  is the error \<^verbatim>\<open>updatePages()\<close> threw, if it did.
\<close>

definition join_inv :: "error option \<Rightarrow> state \<Rightarrow> bool" where
  "join_inv thrown st =
     ((result st = PFulfilled \<longrightarrow> all_fulfilled (branches st))
      \<and> ((\<exists>e. Settled (Rejected e) \<in> set (branches st)) \<longrightarrow> (\<exists>e. result st = PRejected e))
      \<and> (result st = PPending \<longrightarrow> (\<exists>b\<in>set (branches st). \<not> settled b))
      \<and> (\<forall>e. result st = PRejected e \<longrightarrow>
             Settled (Rejected e) \<in> set (branches st) \<or> thrown = Some e))"

text \<open>The error \<^verbatim>\<open>updatePages()\<close> throws, if any.\<close>

definition thrown_by_pages :: "collab \<Rightarrow> (string \<Rightarrow> string option) \<Rightarrow> fs \<Rightarrow> error option" where
  "thrown_by_pages col inputs fs =
     (case updatePages col inputs fs of Inl e \<Rightarrow> Some e | Inr r \<Rightarrow> None)"


text \<open>
  The words of the spec for the filter: the file name exists as a file under
  \<^verbatim>\<open><dir>/mods/\<close>, that is, the joined path holds a file, not a directory, and lies
  inside the joined directory.
\<close>

definition file_under_mods :: "fs \<Rightarrow> string \<Rightarrow> string \<Rightarrow> bool" where
  "file_under_mods fs dir f =
     (let m = join [dir, ''mods''];
          p = join [dir, ''mods'', f]
      in case fs p of
           Some (File content) \<Rightarrow> take (length m + 1) p = m @ ''/''
         | _ \<Rightarrow> False)"





text \<open>\<^verbatim>\<open>endGroup()\<close> was called exactly when \<^verbatim>\<open>updateWeb()\<close> is fulfilled.\<close>

definition group_closed :: "state \<Rightarrow> bool" where
  "group_closed st = ((EndGroup \<in> set (trace st)) = (result st = PFulfilled))"

section \<open>A small pack, for the concrete runs\<close>

definition demo_manifest_text :: string where
  \<open>demo_manifest_text =
     ''{"installedAddons": [{"addonID": 1, "installedFile": {"id": 10, "fileName": "mod1.jar"}}, {"addonID": 2, "installedFile": {"id": 20, "fileName": "mod2.jar"}}]}''\<close>

definition demo_addon :: "int \<Rightarrow> int \<Rightarrow> string \<Rightarrow> jsval" where
  "demo_addon a i f =
     JObj [(''addonID'', JNum a), (''installedFile'', JObj [(''id'', JNum i), (''fileName'', JStr f)])]"

definition demo_manifest :: jsval where
  "demo_manifest =
     JObj [(''installedAddons'', JArr [demo_addon 1 10 ''mod1.jar'', demo_addon 2 20 ''mod2.jar''])]"

definition demo_json :: "string \<Rightarrow> error + jsval" where
  \<open>demo_json s =
     (if s = demo_manifest_text then Inr demo_manifest
      else if s = ''{"title": "Home"}'' then Inr (JObj [(''title'', JStr ''Home'')])
      else Inl (SyntaxError ''Unexpected token''))\<close>

definition demo_yaml :: "string \<Rightarrow> error + jsval" where
  "demo_yaml s =
     (if s = ''title: About'' then Inr (JObj [(''title'', JStr ''About'')])
      else if s = ''name: Demo pack'' then Inr (JObj [(''name'', JStr ''Demo pack'')])
      else Inl (SyntaxError ''Unexpected scalar''))"

definition demo_col :: collab where
  "demo_col = \<lparr>json_parse = demo_json, yaml_parse = demo_yaml, strip = descriptive\<rparr>"

definition demo_fs :: fs where
  \<open>demo_fs =
     [''minecraftinstance.json'' \<mapsto> File demo_manifest_text,
      ''mods'' \<mapsto> Dir [''mod1.jar''],
      ''mods/mod1.jar'' \<mapsto> File ''PK'',
      ''web'' \<mapsto> Dir [''assets'', ''pack.yml'', ''pages''],
      ''web/pack.yml'' \<mapsto> File ''name: Demo pack'',
      ''web/assets'' \<mapsto> Dir [''banner.jpg'', ''logo.png''],
      ''web/assets/banner.jpg'' \<mapsto> File ''JFIF'',
      ''web/assets/logo.png'' \<mapsto> File ''PNG'',
      ''web/pages'' \<mapsto> Dir [''about.yml'', ''home.json'', ''notes.txt''],
      ''web/pages/about.yml'' \<mapsto> File ''title: About'',
      ''web/pages/home.json'' \<mapsto> File ''{"title": "Home"}'',
      ''web/pages/notes.txt'' \<mapsto> File ''to do'']\<close>


definition demo_inputs :: "string \<Rightarrow> string option" where
  "demo_inputs =
     [''action'' \<mapsto> ''web'', ''api'' \<mapsto> ''https://packs.example/api'', ''web_token'' \<mapsto> ''s3cret'']"

definition demo_api :: api where
  "demo_api =
     \<lparr>baseURL = ''https://packs.example/api'',
      headers = [(''Content-Type'', ''application/json''), (''Authorization'', ''Bearer s3cret'')]\<rparr>"

definition demo_release :: RawRelease where
  "demo_release =
     \<lparr>tag_name = ''v1.2.0'',
      descriptive = [(''name'', JStr ''Release 1.2.0''), (''body'', JStr ''Notes''),
                     (''prerelease'', JBool False)]\<rparr>"

definition demo_release_clash :: RawRelease where
  "demo_release_clash =
     \<lparr>tag_name = ''v1.2.0'',
      descriptive = [(''name'', JStr ''Release 1.2.0''), (''installedAddons'', JStr ''none'')]\<rparr>"

definition demo_context :: github_context where
  "demo_context = \<lparr>eventName = ''release'', payload_release = demo_release\<rparr>"


text \<open>
  A manifest that names a path above \<^verbatim>\<open>mods\<close>, a directory and a file that is not there,
  in a pack where \<^verbatim>\<open>mods/sub\<close> is a directory.
\<close>

definition demo_odd_manifest_text :: string where
  \<open>demo_odd_manifest_text =
     ''{"installedAddons": [{"addonID": 3, "installedFile": {"id": 30, "fileName": "../minecraftinstance.json"}}, {"addonID": 4, "installedFile": {"id": 40, "fileName": "sub"}}, {"addonID": 2, "installedFile": {"id": 20, "fileName": "mod2.jar"}}]}''\<close>

definition demo_odd_manifest :: jsval where
  "demo_odd_manifest =
     JObj [(''installedAddons'',
            JArr [demo_addon 3 30 ''../minecraftinstance.json'', demo_addon 4 40 ''sub'',
                  demo_addon 2 20 ''mod2.jar''])]"

definition demo_odd_col :: collab where
  "demo_odd_col =
     \<lparr>json_parse = (\<lambda>s. if s = demo_odd_manifest_text then Inr demo_odd_manifest else demo_json s),
      yaml_parse = demo_yaml, strip = descriptive\<rparr>"

definition demo_odd_fs :: fs where
  "demo_odd_fs =
     demo_fs(''minecraftinstance.json'' \<mapsto> File demo_odd_manifest_text,
             ''mods'' \<mapsto> Dir [''mod1.jar'', ''sub''],
             ''mods/sub'' \<mapsto> Dir [])"

section \<open>Properties of release creation\<close>

lemma array_filter_total:
  "\<forall>x\<in>set xs. p x = Inr (q x) \<Longrightarrow> array_filter p xs = Inr (filter q xs)"
  by (induction xs) auto

lemma addon_exists_addon:
  "is_addon x \<Longrightarrow> addon_exists fs dir x = Inr (existsSync fs (join [dir, ''mods'', fileName x]))"
  by (auto simp: is_addon_def addon_exists_def fileName_def get_prop_def
      split: jsval.splits option.splits)

lemma map_of_foldl_update:
  "map_of (foldl (\<lambda>acc (k, v). AList.update k v acc) props extra) = map_of props ++ map_of (rev extra)"
  by (induction extra arbitrary: props)
     (auto simp: update_conv' map_add_def fun_eq_iff split: option.splits)

lemma map_of_spread: "map_of (spread props extra) = map_of props ++ map_of (rev extra)"
  by (simp add: spread_def map_of_foldl_update)

lemma map_of_rev_None: "map_of (rev kvs) k = None \<longleftrightarrow> map_of kvs k = None"
  by (simp add: map_of_eq_None_iff)

lemma map_of_rev_distinct: "distinct (map fst kvs) \<Longrightarrow> map_of (rev kvs) = map_of kvs"
  by (rule ext) (metis map_of_eq_None_iff map_of_is_SomeI map_of_SomeD not_None_eq set_rev)

lemma filter_installedAddons_manifest:
  assumes "get_prop cfData ''installedAddons'' = Inr (JArr addons)" and "list_all is_addon addons"
  shows "filter_installedAddons fs dir cfData =
    Inr (filter (\<lambda>x. existsSync fs (join [dir, ''mods'', fileName x])) addons)"
  using assms
  by (simp add: filter_installedAddons_def list_all_iff array_filter_total addon_exists_addon)

lemma createRelease_reaches_put:
  assumes "getApi inputs = Inr a"
    and "fs (join [dir, ''minecraftinstance.json'']) = Some (File content)"
    and "json_parse col content = Inr cfData"
    and "filter_installedAddons fs dir cfData = Inr filtered"
  shows "requests (fst (createRelease col inputs fs release dir resp)) =
    [put a (''/pack/release/'' @ tag_name release)
       (JsonBody (JObj (spread [(''installedAddons'', JArr filtered)] (strip col release)))) []]"
  using assms
  by (cases resp) (simp_all add: createRelease_def existsSync_def readFileSync_def Let_def)

text \<open>Facts about the small pack, used by the concrete runs.\<close>

lemma demo_getApi: "getApi demo_inputs = Inr demo_api"
  by (simp add: getApi_def getInput_def demo_inputs_def demo_api_def trim_def is_space_def)

lemma demo_join_manifest: "join ['''', ''minecraftinstance.json''] = ''minecraftinstance.json''"
  by (simp add: join_def normalizePath_def normalizeString_def normalize_step_def)

lemma demo_manifest_file:
  "demo_fs (join ['''', ''minecraftinstance.json'']) = Some (File demo_manifest_text)"
  by (simp add: demo_join_manifest demo_fs_def)

lemma demo_manifest_parse: "json_parse demo_col demo_manifest_text = Inr demo_manifest"
  by (simp add: demo_col_def demo_json_def)

lemma demo_manifest_addons:
  "get_prop demo_manifest ''installedAddons'' =
     Inr (JArr [demo_addon 1 10 ''mod1.jar'', demo_addon 2 20 ''mod2.jar''])"
  by (simp add: demo_manifest_def get_prop_def)

lemma demo_addons_wf: "list_all is_addon [demo_addon 1 10 ''mod1.jar'', demo_addon 2 20 ''mod2.jar'']"
  by (simp add: is_addon_def demo_addon_def)

lemma demo_mod1: "existsSync demo_fs (join ['''', ''mods'', fileName (demo_addon 1 10 ''mod1.jar'')])"
  by (simp add: fileName_def demo_addon_def join_def normalizePath_def normalizeString_def
      normalize_step_def existsSync_def demo_fs_def)

lemma demo_mod2: "\<not> existsSync demo_fs (join ['''', ''mods'', fileName (demo_addon 2 20 ''mod2.jar'')])"
  by (simp add: fileName_def demo_addon_def join_def normalizePath_def normalizeString_def
      normalize_step_def existsSync_def demo_fs_def)

lemma demo_filtered:
  "filter_installedAddons demo_fs [] demo_manifest = Inr [demo_addon 1 10 ''mod1.jar'']"
  by (simp add: filter_installedAddons_manifest [OF demo_manifest_addons demo_addons_wf]
      demo_mod1 demo_mod2)

text \<open>The odd manifest: what is there for \<^verbatim>\<open>existsSync\<close>, and what is a file under \<^verbatim>\<open>mods\<close>.\<close>

lemma demo_odd_manifest_file:
  "demo_odd_fs (join ['''', ''minecraftinstance.json'']) = Some (File demo_odd_manifest_text)"
  by (simp add: demo_join_manifest demo_odd_fs_def)

lemma demo_odd_parse: "json_parse demo_odd_col demo_odd_manifest_text = Inr demo_odd_manifest"
  by (simp add: demo_odd_col_def)

lemma demo_odd_addons:
  "get_prop demo_odd_manifest ''installedAddons'' =
     Inr (JArr [demo_addon 3 30 ''../minecraftinstance.json'', demo_addon 4 40 ''sub'',
                demo_addon 2 20 ''mod2.jar''])"
  by (simp add: demo_odd_manifest_def get_prop_def)

lemma demo_odd_wf:
  "list_all is_addon
     [demo_addon 3 30 ''../minecraftinstance.json'', demo_addon 4 40 ''sub'',
      demo_addon 2 20 ''mod2.jar'']"
  by (simp add: is_addon_def demo_addon_def)

lemma demo_odd_joins:
  "join ['''', ''mods'', ''../minecraftinstance.json''] = ''minecraftinstance.json''"
  "join ['''', ''mods'', ''sub''] = ''mods/sub''"
  "join ['''', ''mods'', ''mod2.jar''] = ''mods/mod2.jar''"
  "join ['''', ''mods''] = ''mods''"
  by (simp_all add: join_def normalizePath_def normalizeString_def normalize_step_def)

lemma demo_odd_fileNames:
  "fileName (demo_addon a i f) = f"
  by (simp add: fileName_def demo_addon_def)

lemma demo_odd_filtered:
  "filter_installedAddons demo_odd_fs [] demo_odd_manifest =
     Inr [demo_addon 3 30 ''../minecraftinstance.json'', demo_addon 4 40 ''sub'']"
  by (simp add: filter_installedAddons_manifest [OF demo_odd_addons demo_odd_wf]
      demo_odd_fileNames demo_odd_joins existsSync_def demo_odd_fs_def demo_fs_def)

text \<open>
  C1, as stated, fails: what is tested is that the joined path exists, not that a file
  exists under \<^verbatim>\<open>mods\<close>. In the pack with the odd manifest the entry with the file name
  \<^verbatim>\<open>../minecraftinstance.json\<close> is sent, its joined path being the manifest itself, outside
  \<^verbatim>\<open>mods\<close>; and the entry with the file name \<^verbatim>\<open>sub\<close> is sent, \<^verbatim>\<open>mods/sub\<close> being a
  directory. Neither file name exists as a file under \<^verbatim>\<open>mods\<close>.
\<close>

theorem createRelease_sends_non_files:
  "sent_addons (fst (createRelease demo_odd_col demo_inputs demo_odd_fs demo_release [] (Ok JNull))) =
     Some [demo_addon 3 30 ''../minecraftinstance.json'', demo_addon 4 40 ''sub'']
   \<and> \<not> file_under_mods demo_odd_fs [] ''../minecraftinstance.json''
   \<and> \<not> file_under_mods demo_odd_fs [] ''sub''
   \<and> join ['''', ''mods'', ''../minecraftinstance.json''] = ''minecraftinstance.json''
   \<and> demo_odd_fs (join ['''', ''mods'', ''sub'']) = Some (Dir [])"
proof -
  have none: "map_of (rev (strip demo_odd_col demo_release)) ''installedAddons'' = None"
    by (simp add: demo_odd_col_def demo_release_def)
  have "sent_addons (fst (createRelease demo_odd_col demo_inputs demo_odd_fs demo_release [] (Ok JNull))) =
      Some [demo_addon 3 30 ''../minecraftinstance.json'', demo_addon 4 40 ''sub'']"
    by (simp add: sent_addons_def
        createRelease_reaches_put [where fs = demo_odd_fs and dir = "[]",
          OF demo_getApi demo_odd_manifest_file demo_odd_parse demo_odd_filtered]
        payload_addons_def put_def map_of_spread map_add_def none)
  moreover have "\<not> file_under_mods demo_odd_fs [] ''../minecraftinstance.json''"
    by (simp add: file_under_mods_def demo_odd_joins demo_odd_fs_def)
  moreover have "\<not> file_under_mods demo_odd_fs [] ''sub''"
    by (simp add: file_under_mods_def demo_odd_joins demo_odd_fs_def)
  moreover have "demo_odd_fs (join ['''', ''mods'', ''sub'']) = Some (Dir [])"
    by (simp add: demo_odd_joins demo_odd_fs_def)
  ultimately show ?thesis
    by (simp add: demo_odd_joins)
qed

text \<open>
  C1, amended. Whenever \<^verbatim>\<open>createRelease\<close> gets as far as reading a manifest whose
  \<^verbatim>\<open>installedAddons\<close> is an array of addon entries, and \<^verbatim>\<open>strip(release)\<close> has no
  property \<^verbatim>\<open>installedAddons\<close> (the case of C10), it issues one request, and the addon
  list of its payload holds exactly the entries of the manifest for which \<^verbatim>\<open>existsSync\<close>
  finds the path \<^verbatim>\<open>join(dir, "mods", installedFile.fileName)\<close> in the file system the
  filter ran on, in the order of the manifest: the joined path, once normalised, exists,
  as a file or as a directory, inside \<^verbatim>\<open><dir>/mods/\<close> or not. It is a subset of the
  manifest, and an entry belongs to it if and only if it is in the manifest and that path
  exists: neither side of that equivalence looks at the position of the entry. Every
  entry of the manifest whose file name exists as a file under \<^verbatim>\<open><dir>/mods/\<close> is in it.
\<close>

theorem createRelease_installedAddons:
  assumes "getApi inputs = Inr a"
    and "fs (join [dir, ''minecraftinstance.json'']) = Some (File content)"
    and "json_parse col content = Inr cfData"
    and "get_prop cfData ''installedAddons'' = Inr (JArr addons)"
    and "list_all is_addon addons"
    and "map_of (strip col release) ''installedAddons'' = None"
  shows "\<exists>sent. sent_addons (fst (createRelease col inputs fs release dir resp)) = Some sent
           \<and> sent = filter (\<lambda>x. existsSync fs (join [dir, ''mods'', fileName x])) addons
           \<and> set sent \<subseteq> set addons
           \<and> (\<forall>x. x \<in> set sent \<longleftrightarrow>
                  x \<in> set addons \<and> existsSync fs (join [dir, ''mods'', fileName x]))
           \<and> (\<forall>x\<in>set addons. file_under_mods fs dir (fileName x) \<longrightarrow> x \<in> set sent)"
proof -
  let ?P = "\<lambda>x. existsSync fs (join [dir, ''mods'', fileName x])"
  have u: "existsSync fs (join [dir, ''mods'', f])" if "file_under_mods fs dir f" for f
    using that
    by (auto simp: file_under_mods_def existsSync_def Let_def split: option.splits node.splits)
  have f: "filter_installedAddons fs dir cfData = Inr (filter ?P addons)"
    using assms(4,5) by (rule filter_installedAddons_manifest)
  have none: "map_of (rev (strip col release)) ''installedAddons'' = None"
    using assms(6) by (simp add: map_of_rev_None)
  have "sent_addons (fst (createRelease col inputs fs release dir resp)) = Some (filter ?P addons)"
    by (simp add: sent_addons_def createRelease_reaches_put [OF assms(1-3) f] payload_addons_def
        put_def map_of_spread map_add_def none)
  then show ?thesis using u by auto
qed

theorem createRelease_installedAddons_witness:
  "getApi demo_inputs = Inr demo_api
   \<and> demo_fs (join ['''', ''minecraftinstance.json'']) = Some (File demo_manifest_text)
   \<and> json_parse demo_col demo_manifest_text = Inr demo_manifest
   \<and> list_all is_addon [demo_addon 1 10 ''mod1.jar'', demo_addon 2 20 ''mod2.jar'']
   \<and> map_of (strip demo_col demo_release) ''installedAddons'' = None
   \<and> sent_addons (fst (createRelease demo_col demo_inputs demo_fs demo_release [] (Ok JNull))) =
       Some [demo_addon 1 10 ''mod1.jar'']"
proof -
  have clash: "map_of (strip demo_col demo_release) ''installedAddons'' = None"
    by (simp add: demo_col_def demo_release_def)
  from createRelease_installedAddons [where fs = demo_fs and dir = "[]" and resp = "Ok JNull",
      OF demo_getApi demo_manifest_file demo_manifest_parse demo_manifest_addons demo_addons_wf clash]
  have "sent_addons (fst (createRelease demo_col demo_inputs demo_fs demo_release [] (Ok JNull))) =
      Some (filter (\<lambda>x. existsSync demo_fs (join ['''', ''mods'', fileName x]))
              [demo_addon 1 10 ''mod1.jar'', demo_addon 2 20 ''mod2.jar''])"
    by blast
  then show ?thesis
    using demo_getApi demo_manifest_file demo_manifest_parse demo_addons_wf clash
    by (simp add: demo_mod1 demo_mod2)
qed

text \<open>
  C2. When the manifest file does not exist, \<^verbatim>\<open>createRelease\<close> rejects, for every release
  and directory and whatever the network would answer; the error is not a transport
  error (it is the error of a missing \<^verbatim>\<open>web_token\<close> when \<^verbatim>\<open>getApi()\<close> throws first, and
  \<^verbatim>\<open>minecraftinstance.json file missing\<close> otherwise), and nothing has happened before
  it: no request was issued.
\<close>

theorem createRelease_manifest_missing:
  assumes "\<not> existsSync fs (join [dir, ''minecraftinstance.json''])"
  shows "\<exists>e. snd (createRelease col inputs fs release dir resp) = Inl e
           \<and> \<not> isAxiosError e
           \<and> e = (case getApi inputs of
                    Inl c \<Rightarrow> c
                  | Inr a \<Rightarrow> Error ''minecraftinstance.json file missing'')
           \<and> fst (createRelease col inputs fs release dir resp) = []
           \<and> requests (fst (createRelease col inputs fs release dir resp)) = []"
  using assms
  by (auto simp: createRelease_def getApi_def getInput_def Let_def split: sum.splits if_splits)

theorem createRelease_manifest_missing_witness:
  "\<not> existsSync Map.empty (join ['''', ''minecraftinstance.json''])
   \<and> createRelease demo_col demo_inputs Map.empty demo_release [] (Ok JNull) =
       ([], Inl (Error ''minecraftinstance.json file missing''))"
proof -
  have h: "\<not> existsSync Map.empty (join ['''', ''minecraftinstance.json''])"
    by (simp add: existsSync_def)
  from createRelease_manifest_missing [OF h, of demo_col demo_inputs demo_release "Ok JNull"]
  show ?thesis
    using h by (auto simp: demo_getApi prod_eq_iff)
qed

text \<open>
  C10. The payload is the object literal with \<^verbatim>\<open>installedAddons\<close> first and the
  properties of \<^verbatim>\<open>strip(release)\<close> spread after it. So its \<^verbatim>\<open>installedAddons\<close> is the
  value \<^verbatim>\<open>strip(release)\<close> has under that key when it has one, and the filtered list
  otherwise; it is the filtered list only without such a key, or with one whose value
  is that same list.
\<close>

theorem createRelease_spread_overrides:
  assumes "getApi inputs = Inr a"
    and "fs (join [dir, ''minecraftinstance.json'']) = Some (File content)"
    and "json_parse col content = Inr cfData"
    and "filter_installedAddons fs dir cfData = Inr filtered"
    and "distinct (map fst (strip col release))"
  shows "\<exists>req. requests (fst (createRelease col inputs fs release dir resp)) = [req]
           \<and> data req =
               JsonBody (JObj (spread [(''installedAddons'', JArr filtered)] (strip col release)))
           \<and> payload_addons req =
               Some (case map_of (strip col release) ''installedAddons'' of
                       Some v \<Rightarrow> v
                     | None \<Rightarrow> JArr filtered)
           \<and> (payload_addons req = Some (JArr filtered)) =
               (map_of (strip col release) ''installedAddons'' \<in> {None, Some (JArr filtered)})"
  by (auto simp: createRelease_reaches_put [OF assms(1-4)] payload_addons_def put_def map_of_spread
      map_of_rev_distinct [OF assms(5)] map_add_def split: option.splits)

theorem createRelease_spread_overrides_witness:
  "distinct (map fst (strip demo_col demo_release_clash))
   \<and> map_of (strip demo_col demo_release_clash) ''installedAddons'' = Some (JStr ''none'')
   \<and> filter_installedAddons demo_fs [] demo_manifest = Inr [demo_addon 1 10 ''mod1.jar'']
   \<and> map payload_addons
       (requests (fst (createRelease demo_col demo_inputs demo_fs demo_release_clash [] (Ok JNull)))) =
       [Some (JStr ''none'')]"
proof -
  have d: "distinct (map fst (strip demo_col demo_release_clash))"
    by (simp add: demo_col_def demo_release_clash_def)
  have v: "map_of (strip demo_col demo_release_clash) ''installedAddons'' = Some (JStr ''none'')"
    by (simp add: demo_col_def demo_release_clash_def)
  from createRelease_spread_overrides [where fs = demo_fs and dir = "[]" and resp = "Ok JNull",
      OF demo_getApi demo_manifest_file demo_manifest_parse demo_filtered d]
  show ?thesis
    using d v demo_filtered by auto
qed

section \<open>Properties of the three kinds of upload\<close>

subsection \<open>Paths of directory entries\<close>

lemma split_on_no_sep: "c \<notin> set f \<Longrightarrow> split_on c f = [f]"
  by (induction f) auto

lemma join_web_pages: "join [webDir, ''pages''] = ''web/pages''"
  by (simp add: join_def normalizePath_def normalizeString_def normalize_step_def webDir_def)

lemma join_web_assets: "join [webDir, ''assets''] = ''web/assets''"
  by (simp add: join_def normalizePath_def normalizeString_def normalize_step_def webDir_def)

lemma join_web_pack: "join [webDir, ''pack.yml''] = ''web/pack.yml''"
  by (simp add: join_def normalizePath_def normalizeString_def normalize_step_def webDir_def)

lemma join_assets_entry:
  assumes "entry_name f"
  shows "join [''web/assets'', f] = ''web/assets/'' @ f"
proof -
  from assms have f: "f \<noteq> []" "CHR ''/'' \<notin> set f" "f \<noteq> ''.''" "f \<noteq> ''..''"
    by (simp_all add: entry_name_def)
  have s: "split_on CHR ''/'' (''web/assets/'' @ f) = [''web'', ''assets'', f]"
    using f(2) by (simp add: split_on_no_sep)
  have l: "last (''web/assets/'' @ f) \<noteq> CHR ''/''"
    using f(1,2) by (metis last_append last_in_set)
  have n: "normalizeString (''web/assets/'' @ f) True = ''web/assets/'' @ f"
    unfolding normalizeString_def s using f by (simp add: normalize_step_def)
  show ?thesis
    using f(1) l n by (simp add: join_def normalizePath_def Let_def)
qed

lemma join_pages_entry:
  assumes "entry_name f"
  shows "join [''web/pages'', f] = ''web/pages/'' @ f"
proof -
  from assms have f: "f \<noteq> []" "CHR ''/'' \<notin> set f" "f \<noteq> ''.''" "f \<noteq> ''..''"
    by (simp_all add: entry_name_def)
  have s: "split_on CHR ''/'' (''web/pages/'' @ f) = [''web'', ''pages'', f]"
    using f(2) by (simp add: split_on_no_sep)
  have l: "last (''web/pages/'' @ f) \<noteq> CHR ''/''"
    using f(1,2) by (metis last_append last_in_set)
  have n: "normalizeString (''web/pages/'' @ f) True = ''web/pages/'' @ f"
    unfolding normalizeString_def s using f by (simp add: normalize_step_def)
  show ?thesis
    using f(1) l n by (simp add: join_def normalizePath_def Let_def)
qed

lemma basename_entry:
  assumes "entry_name f"
  shows "basename (d @ ''/'' @ f) = f"
proof -
  from assms have f: "f \<noteq> []" "CHR ''/'' \<notin> set f" by (simp_all add: entry_name_def)
  then obtain x xs where r: "rev f = x # xs" and x: "x \<noteq> CHR ''/''"
    by (metis list.set_intros(1) neq_Nil_conv rev_is_Nil_conv set_rev)
  have "dropWhile (\<lambda>c. c = CHR ''/'') (rev f @ CHR ''/'' # rev d) = rev f @ CHR ''/'' # rev d"
    by (simp add: r x)
  moreover have "takeWhile (\<lambda>c. c \<noteq> CHR ''/'') (rev f @ CHR ''/'' # rev d) = rev f"
    using f(2) by (auto simp: takeWhile_tail)
  ultimately show ?thesis
    by (simp add: basename_def)
qed

lemma basename_plain:
  assumes "entry_name f"
  shows "basename f = f"
proof -
  from assms have f: "f \<noteq> []" "CHR ''/'' \<notin> set f" by (simp_all add: entry_name_def)
  then obtain x xs where r: "rev f = x # xs" and x: "x \<noteq> CHR ''/''"
    by (metis list.set_intros(1) neq_Nil_conv rev_is_Nil_conv set_rev)
  have d: "dropWhile (\<lambda>c. c = CHR ''/'') (rev f) = rev f"
    by (simp add: r x)
  have t: "takeWhile (\<lambda>c. c \<noteq> CHR ''/'') (rev f) = rev f"
    using f(2) by (auto simp: takeWhile_eq_all_conv)
  show ?thesis
    unfolding basename_def d t by simp
qed

lemma extname_entry: "entry_name f \<Longrightarrow> extname (d @ ''/'' @ f) = extname f"
  using basename_entry [of f d] basename_plain [of f] by (simp add: extname_def)

subsection \<open>Requests in a list of effects\<close>

lemma requests_append: "requests (xs @ ys) = requests xs @ requests ys"
  by (induction xs rule: requests.induct) simp_all

lemma requests_map_Request: "requests (map (\<lambda>v. Request (g v)) vs) = map g vs"
  by (induction vs) simp_all

lemma requests_to_append: "requests_to u (xs @ ys) = requests_to u xs @ requests_to u ys"
  by (simp add: requests_to_def requests_append)

lemma filter_url_other: "\<forall>r\<in>set rs. url r = v \<Longrightarrow> v \<noteq> u \<Longrightarrow> filter (\<lambda>r. url r = u) rs = []"
  by (induction rs) auto

lemma updateData_urls: "\<forall>r\<in>set (requests (fst (updateData col inputs fs))). url r = ''/pack''"
  by (auto simp: updateData_def Let_def put_def split: sum.splits)

lemma updateAssets_urls:
  "\<forall>r\<in>set (requests (fst (updateAssets inputs fs boundary))). url r = ''/pack/assets''"
  by (auto simp: updateAssets_def Let_def put_def split: sum.splits)

lemma updatePages_urls:
  "updatePages col inputs fs = Inr (evs, bs) \<Longrightarrow> \<forall>r\<in>set (requests evs). url r = ''pack/page''"
  by (auto simp: updatePages_def Let_def put_def requests_map_Request split: sum.splits if_splits)

subsection \<open>The form and the pages\<close>

lemma form_foldl:
  "list_all entry_name names \<Longrightarrow>
   foldl (\<lambda>form img. form @ [(basename img, createReadStream img)]) acc
     (map (\<lambda>f. join [''web/assets'', f]) names) =
   acc @ map (\<lambda>f. (f, ReadStream (''web/assets/'' @ f))) names"
proof (induction names arbitrary: acc)
  case Nil
  then show ?case by simp
next
  case (Cons f names)
  then have e: "entry_name f" and rest: "list_all entry_name names" by simp_all
  have "basename (''web/assets/'' @ f) = f"
    using basename_entry [OF e, of "''web/assets''"] by simp
  then show ?case
    using Cons.IH [OF rest] by (simp add: join_assets_entry [OF e] createReadStream_def)
qed

lemma parse_page_entry:
  assumes "entry_name f" and "fs (''web/pages/'' @ f) = Some (File c)" and "page_value col f c v"
  shows "parse_page col fs (join [''web/pages'', f]) = Inr v"
proof -
  have "extname (''web/pages/'' @ f) = extname f"
    using extname_entry [OF assms(1), of "''web/pages''"] by simp
  then show ?thesis
    using assms(2,3)
    by (simp add: parse_page_def join_pages_entry [OF assms(1)] readFileSync_def page_value_def
        split: if_splits)
qed

lemma array_map_pages:
  "list_all2 (\<lambda>f v. entry_name f \<and> (\<exists>c. fs (''web/pages/'' @ f) = Some (File c) \<and> page_value col f c v))
     names bodies \<Longrightarrow>
   array_map (parse_page col fs) (map (\<lambda>f. join [''web/pages'', f]) names) = Inr bodies"
  by (induction names bodies rule: list_all2_induct) (auto simp: parse_page_entry)

lemma updateAssets_listing:
  assumes "getApi inputs = Inr a"
    and "fs (join [webDir, ''assets'']) = Some (Dir names)"
    and "list_all entry_name names"
  shows "updateAssets inputs fs boundary =
           ([Request (put a ''/pack/assets''
                        (FormBody (map (\<lambda>f. (f, ReadStream (''web/assets/'' @ f))) names))
                        (getHeaders boundary))],
            Awaiting ''/pack/assets'' AssetsUpdated)"
  using assms
  by (simp add: updateAssets_def join_web_assets existsSync_def readdirSync_def Let_def form_foldl)

lemma updatePages_listing:
  assumes "getApi inputs = Inr a"
    and "fs (join [webDir, ''pages'']) = Some (Dir names)"
    and "list_all2 (\<lambda>f v. entry_name f \<and> (\<exists>c. fs (''web/pages/'' @ f) = Some (File c) \<and> page_value col f c v))
           names bodies"
  shows "updatePages col inputs fs =
           Inr (map (\<lambda>v. Request (put a ''pack/page'' (JsonBody v) [])) bodies,
                map (\<lambda>v. Awaiting ''pack/page'' (PageUploaded v)) bodies)"
  using assms(1,2) array_map_pages [OF assms(3)]
  by (simp add: updatePages_def join_web_pages existsSync_def readdirSync_def Let_def)

text \<open>The uploads of the small pack.\<close>

lemma demo_assets_dir: "demo_fs (join [webDir, ''assets'']) = Some (Dir [''banner.jpg'', ''logo.png''])"
  by (simp add: join_web_assets demo_fs_def)

lemma demo_assets_names: "list_all entry_name [''banner.jpg'', ''logo.png'']"
  by (simp add: entry_name_def)

lemma demo_pages_dir:
  "demo_fs (join [webDir, ''pages'']) = Some (Dir [''about.yml'', ''home.json'', ''notes.txt''])"
  by (simp add: join_web_pages demo_fs_def)

lemma demo_extnames:
  "extname ''about.yml'' = ''.yml''" "extname ''home.json'' = ''.json''"
  "extname ''notes.txt'' = ''.txt''"
  by (simp_all add: extname_def basename_def)

lemma demo_pages_values:
  "list_all2
     (\<lambda>f v. entry_name f \<and> (\<exists>c. demo_fs (''web/pages/'' @ f) = Some (File c) \<and> page_value demo_col f c v))
     [''about.yml'', ''home.json'', ''notes.txt'']
     [JObj [(''title'', JStr ''About'')], JObj [(''title'', JStr ''Home'')], JObj []]"
  by (simp add: entry_name_def demo_fs_def page_value_def demo_extnames demo_col_def demo_json_def
      demo_yaml_def demo_manifest_text_def)

lemma demo_updatePages:
  "updatePages demo_col demo_inputs demo_fs =
     Inr ([Request (put demo_api ''pack/page'' (JsonBody (JObj [(''title'', JStr ''About'')])) []),
           Request (put demo_api ''pack/page'' (JsonBody (JObj [(''title'', JStr ''Home'')])) []),
           Request (put demo_api ''pack/page'' (JsonBody (JObj [])) [])],
          [Awaiting ''pack/page'' (PageUploaded (JObj [(''title'', JStr ''About'')])),
           Awaiting ''pack/page'' (PageUploaded (JObj [(''title'', JStr ''Home'')])),
           Awaiting ''pack/page'' (PageUploaded (JObj []))])"
  using updatePages_listing [where fs = demo_fs, OF demo_getApi demo_pages_dir demo_pages_values]
  by simp

lemma demo_updateAssets:
  "updateAssets demo_inputs demo_fs boundary =
     ([Request (put demo_api ''/pack/assets''
                  (FormBody [(''banner.jpg'', ReadStream ''web/assets/banner.jpg''),
                             (''logo.png'', ReadStream ''web/assets/logo.png'')])
                  (getHeaders boundary))],
      Awaiting ''/pack/assets'' AssetsUpdated)"
  using updateAssets_listing [where fs = demo_fs, OF demo_getApi demo_assets_dir demo_assets_names]
  by simp

lemma demo_updateData:
  "updateData demo_col demo_inputs demo_fs =
     ([Request (put demo_api ''/pack'' (JsonBody (JObj [(''name'', JStr ''Demo pack'')])) [])],
      Awaiting ''/pack'' DataUpdated)"
  by (simp add: updateData_def demo_getApi join_web_pack existsSync_def readFileSync_def
      demo_fs_def demo_col_def demo_yaml_def)

text \<open>
  C6. When the assets directory exists and \<^verbatim>\<open>readdirSync\<close> lists \<open>names\<close> in it,
  \<^verbatim>\<open>updateAssets\<close> issues one request and nothing else, a \<^verbatim>\<open>PUT\<close> of \<^verbatim>\<open>/pack/assets\<close>
  with the headers of the form; its body has one part for each listed name, in that
  order, the field name being the name itself (the base name of the joined path, not
  the path) and the content the stream of \<^verbatim>\<open>web/assets/<name>\<close>.
\<close>

theorem updateAssets_one_put:
  assumes "getApi inputs = Inr a"
    and "fs (join [webDir, ''assets'']) = Some (Dir names)"
    and "list_all entry_name names"
  shows "updateAssets inputs fs boundary =
           ([Request (put a ''/pack/assets''
                        (FormBody (map (\<lambda>f. (f, ReadStream (''web/assets/'' @ f))) names))
                        (getHeaders boundary))],
            Awaiting ''/pack/assets'' AssetsUpdated)
         \<and> length (map (\<lambda>f. (f, ReadStream (''web/assets/'' @ f))) names) = length names
         \<and> map fst (map (\<lambda>f. (f, ReadStream (''web/assets/'' @ f))) names) = names"
  using updateAssets_listing [where fs = fs, OF assms] by (simp add: comp_def)

theorem updateAssets_one_put_witness:
  "demo_fs (join [webDir, ''assets'']) = Some (Dir [''banner.jpg'', ''logo.png''])
   \<and> list_all entry_name [''banner.jpg'', ''logo.png'']
   \<and> updateAssets demo_inputs demo_fs ''xYz'' =
       ([Request (put demo_api ''/pack/assets''
                    (FormBody [(''banner.jpg'', ReadStream ''web/assets/banner.jpg''),
                               (''logo.png'', ReadStream ''web/assets/logo.png'')])
                    [(''content-type'', ''multipart/form-data; boundary=xYz'')])],
        Awaiting ''/pack/assets'' AssetsUpdated)"
  using updateAssets_one_put [where fs = demo_fs and boundary = "''xYz''",
      OF demo_getApi demo_assets_dir demo_assets_names]
    demo_assets_dir demo_assets_names
  by (simp add: getHeaders_def)

section \<open>Properties of the fan-out\<close>

lemma first_rejection_None: "first_rejection bs = None \<longleftrightarrow> (\<forall>e. Settled (Rejected e) \<notin> set bs)"
  by (induction bs rule: first_rejection.induct) auto

lemma first_rejection_Some: "first_rejection bs = Some e \<Longrightarrow> Settled (Rejected e) \<in> set bs"
  by (induction bs rule: first_rejection.induct) auto

lemma not_all_fulfilled:
  assumes "\<not> all_fulfilled bs" and "\<forall>e. Settled (Rejected e) \<notin> set bs"
  shows "\<exists>b\<in>set bs. \<not> settled b"
proof -
  from assms(1) obtain b where b: "b \<in> set bs" "b \<noteq> Settled Fulfilled"
    by (auto simp: all_fulfilled_def list_all_iff)
  with assms(2) have "\<not> settled b"
    by (cases b) (auto, metis outcome.exhaust)
  with b show ?thesis by blast
qed

lemma quiet_unhandled: "quiet unhandled"
  by (simp add: quiet_def unhandled_def)

lemma requests_settle: "requests (fst (settle u k resp)) = []"
  by (cases resp; cases k) (auto simp: settle_def split: sum.splits)

lemma requests_finish: "quiet h \<Longrightarrow> requests (finish h p) = []"
  by (cases p) (simp_all add: finish_def quiet_def)

lemma deliver_requests: "quiet h \<Longrightarrow> requests (trace (deliver h st d)) = requests (trace st)"
  using requests_settle [of _ _ "snd d"]
  by (auto simp: deliver_def Let_def requests_append requests_finish split: branch.splits prod.splits)
     (metis fst_conv)+

lemma foldl_deliver_requests:
  "quiet h \<Longrightarrow> requests (trace (foldl (deliver h) st net)) = requests (trace st)"
  by (induction net arbitrary: st) (simp_all add: deliver_requests)

lemma updateWeb_requests:
  "quiet h \<Longrightarrow>
   requests (trace (updateWeb col inputs fs boundary h net)) =
   requests (trace (updateWeb_start col inputs fs boundary h))"
  by (simp add: updateWeb_def foldl_deliver_requests)

lemma updateWeb_start_requests:
  "quiet h \<Longrightarrow>
   requests (trace (updateWeb_start col inputs fs boundary h)) =
     (case updatePages col inputs fs of
        Inl e \<Rightarrow> []
      | Inr (evs, bs) \<Rightarrow>
          requests evs @ requests (fst (updateData col inputs fs))
            @ requests (fst (updateAssets inputs fs boundary)))"
  by (auto simp: updateWeb_start_def Let_def requests_append requests_finish quiet_def
      split: sum.splits prod.splits)

text \<open>What holds of the awaited promise and the branches at every moment of a run.\<close>

lemma promise_all_inv:
  "(promise_all bs = PFulfilled \<longrightarrow> all_fulfilled bs)
   \<and> ((\<exists>e. Settled (Rejected e) \<in> set bs) \<longrightarrow> (\<exists>e. promise_all bs = PRejected e))
   \<and> (promise_all bs = PPending \<longrightarrow> (\<exists>b\<in>set bs. \<not> settled b))
   \<and> (\<forall>e. promise_all bs = PRejected e \<longrightarrow> Settled (Rejected e) \<in> set bs)"
proof (cases "first_rejection bs")
  case None
  then have r: "\<forall>e. Settled (Rejected e) \<notin> set bs" by (simp add: first_rejection_None)
  show ?thesis
  proof (cases "all_fulfilled bs")
    case True
    with None r show ?thesis by (simp add: promise_all_def)
  next
    case False
    with None r not_all_fulfilled [OF False r] show ?thesis
      by (simp add: promise_all_def)
  qed
next
  case (Some e)
  then have "Settled (Rejected e) \<in> set bs" by (rule first_rejection_Some)
  with Some show ?thesis by (auto simp: promise_all_def)
qed

lemma join_inv_start:
  "join_inv (thrown_by_pages col inputs fs) (updateWeb_start col inputs fs boundary h)"
proof (cases "updatePages col inputs fs")
  case (Inl e)
  then show ?thesis
    by (simp add: join_inv_def thrown_by_pages_def updateWeb_start_def all_fulfilled_def)
next
  case (Inr r)
  obtain evs pbs where r: "r = (evs, pbs)" by (cases r)
  obtain evs2 b2 where d: "updateData col inputs fs = (evs2, b2)" by (cases "updateData col inputs fs")
  obtain evs3 b3 where a: "updateAssets inputs fs boundary = (evs3, b3)"
    by (cases "updateAssets inputs fs boundary")
  show ?thesis
    using promise_all_inv [of "pbs @ [b2, b3]"]
    by (simp add: join_inv_def updateWeb_start_def Inr r d a Let_def)
qed

lemma join_inv_deliver:
  assumes "join_inv thrown st"
  shows "join_inv thrown (deliver h st d)"
proof (cases "fst d < length (branches st)")
  case False
  with assms show ?thesis by (simp add: deliver_def Let_def)
next
  case True
  show ?thesis
  proof (cases "branches st ! fst d")
    case (Settled out)
    with True assms show ?thesis by (simp add: deliver_def Let_def)
  next
    case (Awaiting u k)
    obtain evs out where s: "settle u k (snd d) = (evs, out)" by (cases "settle u k (snd d)")
    let ?bs = "(branches st)[fst d := Settled out]"
    have mem: "Awaiting u k \<in> set (branches st)"
      using True Awaiting by (metis nth_mem)
    then have nf: "\<not> all_fulfilled (branches st)"
      by (auto simp: all_fulfilled_def list_all_iff)
    then have res: "result st \<noteq> PFulfilled"
      using assms by (auto simp: join_inv_def)
    have old: "\<And>x. x \<in> set ?bs \<Longrightarrow> x = Settled out \<or> x \<in> set (branches st)"
      by (metis in_set_conv_nth length_list_update nth_list_update_eq nth_list_update_neq)
    have new: "Settled out \<in> set ?bs"
      using True by (simp add: set_update_memI)
    have keep: "\<And>e. Settled (Rejected e) \<in> set (branches st) \<Longrightarrow> Settled (Rejected e) \<in> set ?bs"
      using True Awaiting
      by (metis branch.distinct(1) in_set_conv_nth length_list_update nth_list_update_neq)
    show ?thesis
    proof (cases "result st")
      case PPending
      then have norej: "\<forall>e. Settled (Rejected e) \<notin> set (branches st)"
        using assms by (auto simp: join_inv_def)
      show ?thesis
      proof (cases out)
        case Fulfilled
        have norej': "\<forall>e. Settled (Rejected e) \<notin> set ?bs"
          using norej old Fulfilled by blast
        show ?thesis
        proof (cases "all_fulfilled ?bs")
          case t: True
          then show ?thesis
            using True Awaiting s PPending Fulfilled norej'
            by (simp add: deliver_def Let_def join_inv_def)
        next
          case f: False
          then show ?thesis
            using True Awaiting s PPending Fulfilled norej' not_all_fulfilled [OF f norej']
            by (simp add: deliver_def Let_def join_inv_def)
        qed
      next
        case (Rejected e)
        then show ?thesis
          using True Awaiting s PPending new
          by (simp add: deliver_def Let_def join_inv_def)
      qed
    next
      case PFulfilled
      with res show ?thesis by simp
    next
      case (PRejected e)
      with assms have "Settled (Rejected e) \<in> set (branches st) \<or> thrown = Some e"
        by (simp add: join_inv_def)
      then have "Settled (Rejected e) \<in> set ?bs \<or> thrown = Some e"
        using keep by blast
      then show ?thesis
        using True Awaiting s PRejected
        by (simp add: deliver_def Let_def join_inv_def)
    qed
  qed
qed

lemma join_inv_foldl: "join_inv thrown st \<Longrightarrow> join_inv thrown (foldl (deliver h) st net)"
  by (induction net arbitrary: st) (simp_all add: join_inv_deliver)

lemma join_inv_updateWeb:
  "join_inv (thrown_by_pages col inputs fs) (updateWeb col inputs fs boundary h net)"
  by (simp add: updateWeb_def join_inv_foldl join_inv_start)

lemma updateWeb_snoc:
  "updateWeb col inputs fs boundary h (net @ [d]) =
   deliver h (updateWeb col inputs fs boundary h net) d"
  by (simp add: updateWeb_def)

lemma deliver_awaiting:
  assumes "i < length (branches st)" and "branches st ! i = Awaiting u k"
  shows "branches (deliver h st (i, resp)) = (branches st)[i := Settled (snd (settle u k resp))]"
    and "result st = PPending \<Longrightarrow>
         result (deliver h st (i, Fail m d)) = PRejected (AxiosError m u d)"
  using assms by (simp_all add: deliver_def Let_def settle_def split: prod.splits)

lemma deliver_settled:
  assumes "\<forall>b\<in>set (branches st). settled b"
  shows "deliver h st d = st"
proof (cases "fst d < length (branches st)")
  case True
  then have "settled (branches st ! fst d)"
    using assms nth_mem by blast
  then show ?thesis
    using True by (cases "branches st ! fst d") (simp_all add: deliver_def Let_def)
next
  case False
  then show ?thesis by (simp add: deliver_def Let_def)
qed

lemma foldl_deliver_settled:
  "\<forall>b\<in>set (branches st). settled b \<Longrightarrow> foldl (deliver h) st net = st"
  by (induction net) (simp_all add: deliver_settled)

text \<open>The fan-out of the small pack: five requests, all in flight.\<close>

lemma demo_start:
  "updateWeb_start demo_col demo_inputs demo_fs boundary h =
     \<lparr>branches =
        [Awaiting ''pack/page'' (PageUploaded (JObj [(''title'', JStr ''About'')])),
         Awaiting ''pack/page'' (PageUploaded (JObj [(''title'', JStr ''Home'')])),
         Awaiting ''pack/page'' (PageUploaded (JObj [])),
         Awaiting ''/pack'' DataUpdated,
         Awaiting ''/pack/assets'' AssetsUpdated],
      result = PPending,
      trace =
        [StartGroup ''Updating web'',
         Request (put demo_api ''pack/page'' (JsonBody (JObj [(''title'', JStr ''About'')])) []),
         Request (put demo_api ''pack/page'' (JsonBody (JObj [(''title'', JStr ''Home'')])) []),
         Request (put demo_api ''pack/page'' (JsonBody (JObj [])) []),
         Request (put demo_api ''/pack'' (JsonBody (JObj [(''name'', JStr ''Demo pack'')])) []),
         Request (put demo_api ''/pack/assets''
                    (FormBody [(''banner.jpg'', ReadStream ''web/assets/banner.jpg''),
                               (''logo.png'', ReadStream ''web/assets/logo.png'')])
                    (getHeaders boundary))]\<rparr>"
  by (simp add: updateWeb_start_def demo_updatePages demo_updateData demo_updateAssets
      promise_all_def all_fulfilled_def finish_def)

lemma demo_data_fails:
  "updateWeb demo_col demo_inputs demo_fs boundary unhandled [(3, Fail ''Network Error'' None)] =
     \<lparr>branches =
        [Awaiting ''pack/page'' (PageUploaded (JObj [(''title'', JStr ''About'')])),
         Awaiting ''pack/page'' (PageUploaded (JObj [(''title'', JStr ''Home'')])),
         Awaiting ''pack/page'' (PageUploaded (JObj [])),
         Settled (Rejected (AxiosError ''Network Error'' ''/pack'' None)),
         Awaiting ''/pack/assets'' AssetsUpdated],
      result = PRejected (AxiosError ''Network Error'' ''/pack'' None),
      trace = trace (updateWeb_start demo_col demo_inputs demo_fs boundary unhandled)\<rparr>"
  by (simp add: updateWeb_def demo_start deliver_def settle_def finish_def unhandled_def)

text \<open>What an absent path leaves of each upload, and the requests of a run by endpoint.\<close>

lemma updateData_absent:
  assumes "\<not> existsSync fs (join [webDir, ''pack.yml''])"
  shows "requests (fst (updateData col inputs fs)) = []"
    and "getApi inputs = Inr a \<Longrightarrow>
         updateData col inputs fs = ([Warning ''Skip updating pack data''], Settled Fulfilled)"
  using assms by (simp_all add: updateData_def split: sum.splits)

lemma updateAssets_absent:
  assumes "\<not> existsSync fs (join [webDir, ''assets''])"
  shows "requests (fst (updateAssets inputs fs boundary)) = []"
    and "getApi inputs = Inr a \<Longrightarrow>
         updateAssets inputs fs boundary = ([Warning ''No assets defined''], Settled Fulfilled)"
  using assms by (simp_all add: updateAssets_def split: sum.splits)

lemma updatePages_absent:
  assumes "\<not> existsSync fs (join [webDir, ''pages''])"
  shows "updatePages col inputs fs = Inr (evs, bs) \<Longrightarrow> requests evs = [] \<and> bs = []"
    and "getApi inputs = Inr a \<Longrightarrow>
         updatePages col inputs fs = Inr ([Warning ''No pages defined''], [])"
  using assms by (auto simp: updatePages_def split: sum.splits)

lemma updateWeb_all_requests:
  "requests (trace (updateWeb col inputs fs boundary unhandled net)) =
     (case updatePages col inputs fs of
        Inl e \<Rightarrow> []
      | Inr (evs, bs) \<Rightarrow>
          requests evs @ requests (fst (updateData col inputs fs))
            @ requests (fst (updateAssets inputs fs boundary)))"
  by (simp add: updateWeb_requests updateWeb_start_requests quiet_unhandled)

lemma requests_to_pack:
  assumes "requests (fst (updateData col inputs fs)) = []"
  shows "requests_to ''/pack'' (trace (updateWeb col inputs fs boundary unhandled net)) = []"
proof (cases "updatePages col inputs fs")
  case (Inl e)
  then show ?thesis by (simp add: requests_to_def updateWeb_all_requests)
next
  case (Inr r)
  obtain evs bs where r: "r = (evs, bs)" by (cases r)
  have "filter (\<lambda>q. url q = ''/pack'') (requests evs) = []"
    using updatePages_urls [OF Inr [unfolded r]] by (rule filter_url_other) simp
  moreover have "filter (\<lambda>q. url q = ''/pack'') (requests (fst (updateAssets inputs fs boundary))) = []"
    using updateAssets_urls by (rule filter_url_other) simp
  ultimately show ?thesis
    by (simp add: requests_to_def updateWeb_all_requests Inr r assms)
qed

lemma requests_to_assets:
  assumes "requests (fst (updateAssets inputs fs boundary)) = []"
  shows "requests_to ''/pack/assets'' (trace (updateWeb col inputs fs boundary unhandled net)) = []"
proof (cases "updatePages col inputs fs")
  case (Inl e)
  then show ?thesis by (simp add: requests_to_def updateWeb_all_requests)
next
  case (Inr r)
  obtain evs bs where r: "r = (evs, bs)" by (cases r)
  have "filter (\<lambda>q. url q = ''/pack/assets'') (requests evs) = []"
    using updatePages_urls [OF Inr [unfolded r]] by (rule filter_url_other) simp
  moreover have "filter (\<lambda>q. url q = ''/pack/assets'') (requests (fst (updateData col inputs fs))) = []"
    using updateData_urls by (rule filter_url_other) simp
  ultimately show ?thesis
    by (simp add: requests_to_def updateWeb_all_requests Inr r assms)
qed

lemma requests_to_page:
  "requests_to ''pack/page'' (trace (updateWeb col inputs fs boundary unhandled net)) =
     (case updatePages col inputs fs of Inl e \<Rightarrow> [] | Inr (evs, bs) \<Rightarrow> requests evs)"
proof (cases "updatePages col inputs fs")
  case (Inl e)
  then show ?thesis by (simp add: requests_to_def updateWeb_all_requests)
next
  case (Inr r)
  obtain evs bs where r: "r = (evs, bs)" by (cases r)
  have "filter (\<lambda>q. url q = ''pack/page'') (requests evs) = requests evs"
    using updatePages_urls [OF Inr [unfolded r]] by (simp add: filter_id_conv)
  moreover have "filter (\<lambda>q. url q = ''pack/page'') (requests (fst (updateData col inputs fs))) = []"
    using updateData_urls by (rule filter_url_other) simp
  moreover have "filter (\<lambda>q. url q = ''pack/page'') (requests (fst (updateAssets inputs fs boundary))) = []"
    using updateAssets_urls by (rule filter_url_other) simp
  ultimately show ?thesis
    by (simp add: requests_to_def updateWeb_all_requests Inr r)
qed

text \<open>
  C5. When the pages directory exists and every file \<^verbatim>\<open>readdirSync\<close> lists in it can be
  read and, if its extension is \<^verbatim>\<open>.json\<close> or \<^verbatim>\<open>.yml\<close>, parsed, \<^verbatim>\<open>updatePages\<close> issues one
  \<^verbatim>\<open>PUT\<close> of \<^verbatim>\<open>pack/page\<close> for each listed file, in the order of the listing, and returns
  one pending promise for each. The body for a file is what \<^verbatim>\<open>JSON.parse\<close> makes of its
  content when its extension is \<^verbatim>\<open>.json\<close>, what \<^verbatim>\<open>yaml.parse\<close> makes of it when it is
  \<^verbatim>\<open>.yml\<close>, and the empty object for any other extension, whatever the content. These
  are all the requests to \<^verbatim>\<open>pack/page\<close> of a run of \<^verbatim>\<open>updateWeb()\<close>.
\<close>

theorem updatePages_one_put_each:
  assumes "getApi inputs = Inr a"
    and "fs (join [webDir, ''pages'']) = Some (Dir names)"
    and "list_all2 (\<lambda>f v. entry_name f \<and> (\<exists>c. fs (''web/pages/'' @ f) = Some (File c) \<and> page_value col f c v))
           names bodies"
  shows "updatePages col inputs fs =
           Inr (map (\<lambda>v. Request (put a ''pack/page'' (JsonBody v) [])) bodies,
                map (\<lambda>v. Awaiting ''pack/page'' (PageUploaded v)) bodies)
         \<and> length bodies = length names
         \<and> requests_to ''pack/page'' (trace (updateWeb col inputs fs boundary unhandled net)) =
             map (\<lambda>v. put a ''pack/page'' (JsonBody v) []) bodies"
  using updatePages_listing [where fs = fs, OF assms] list_all2_lengthD [OF assms(3)]
  by (simp add: requests_to_page requests_map_Request)

theorem updatePages_one_put_each_witness:
  "demo_fs (join [webDir, ''pages'']) = Some (Dir [''about.yml'', ''home.json'', ''notes.txt''])
   \<and> extname ''about.yml'' = ''.yml'' \<and> extname ''home.json'' = ''.json''
   \<and> extname ''notes.txt'' = ''.txt''
   \<and> length (requests_to ''pack/page''
               (trace (updateWeb demo_col demo_inputs demo_fs ''xYz'' unhandled []))) = 3
   \<and> updatePages demo_col demo_inputs demo_fs =
       Inr ([Request (put demo_api ''pack/page'' (JsonBody (JObj [(''title'', JStr ''About'')])) []),
             Request (put demo_api ''pack/page'' (JsonBody (JObj [(''title'', JStr ''Home'')])) []),
             Request (put demo_api ''pack/page'' (JsonBody (JObj [])) [])],
            [Awaiting ''pack/page'' (PageUploaded (JObj [(''title'', JStr ''About'')])),
             Awaiting ''pack/page'' (PageUploaded (JObj [(''title'', JStr ''Home'')])),
             Awaiting ''pack/page'' (PageUploaded (JObj []))])"
  using updatePages_one_put_each [where fs = demo_fs and boundary = "''xYz''" and net = "[]",
      OF demo_getApi demo_pages_dir demo_pages_values]
    demo_pages_dir demo_extnames
  by simp

text \<open>
  C4. When \<^verbatim>\<open>web/pack.yml\<close> does not exist, no run of \<^verbatim>\<open>updateWeb()\<close> has a request to
  \<^verbatim>\<open>/pack\<close>, and with the \<^verbatim>\<open>web_token\<close> input in place \<^verbatim>\<open>updateData\<close> only warns and its
  promise is fulfilled; likewise \<^verbatim>\<open>/pack/assets\<close> and \<^verbatim>\<open>updateAssets\<close> when \<^verbatim>\<open>web/assets\<close>
  does not exist; and when \<^verbatim>\<open>web/pages\<close> does not exist no run has a request to
  \<^verbatim>\<open>pack/page\<close>, and \<^verbatim>\<open>updatePages\<close> only warns and returns no promise at all. When all
  three are absent \<^verbatim>\<open>updateWeb()\<close> is fulfilled, after three warnings and no request,
  whatever the network does. (Without the input, \<^verbatim>\<open>getApi()\<close> throws before the path is
  looked at; the spec takes the inputs to be present.)
\<close>

theorem updateWeb_skips_absent:
  "(\<not> existsSync fs (join [webDir, ''pack.yml'']) \<longrightarrow>
      requests_to ''/pack'' (trace (updateWeb col inputs fs boundary unhandled net)) = []
      \<and> (\<forall>a. getApi inputs = Inr a \<longrightarrow>
             updateData col inputs fs = ([Warning ''Skip updating pack data''], Settled Fulfilled)))
   \<and> (\<not> existsSync fs (join [webDir, ''assets'']) \<longrightarrow>
      requests_to ''/pack/assets'' (trace (updateWeb col inputs fs boundary unhandled net)) = []
      \<and> (\<forall>a. getApi inputs = Inr a \<longrightarrow>
             updateAssets inputs fs boundary = ([Warning ''No assets defined''], Settled Fulfilled)))
   \<and> (\<not> existsSync fs (join [webDir, ''pages'']) \<longrightarrow>
      requests_to ''pack/page'' (trace (updateWeb col inputs fs boundary unhandled net)) = []
      \<and> (\<forall>a. getApi inputs = Inr a \<longrightarrow>
             updatePages col inputs fs = Inr ([Warning ''No pages defined''], [])))
   \<and> (\<not> existsSync fs (join [webDir, ''pack.yml'']) \<and> \<not> existsSync fs (join [webDir, ''assets''])
        \<and> \<not> existsSync fs (join [webDir, ''pages'']) \<and> (\<exists>a. getApi inputs = Inr a) \<longrightarrow>
      updateWeb col inputs fs boundary unhandled net =
        \<lparr>branches = [Settled Fulfilled, Settled Fulfilled], result = PFulfilled,
         trace = [StartGroup ''Updating web'', Warning ''No pages defined'',
                  Warning ''Skip updating pack data'', Warning ''No assets defined'',
                  EndGroup]\<rparr>)"
proof -
  have data: "requests_to ''/pack'' (trace (updateWeb col inputs fs boundary unhandled net)) = []"
    if "\<not> existsSync fs (join [webDir, ''pack.yml''])"
    using updateData_absent(1) [OF that] by (rule requests_to_pack)
  have assets: "requests_to ''/pack/assets'' (trace (updateWeb col inputs fs boundary unhandled net)) = []"
    if "\<not> existsSync fs (join [webDir, ''assets''])"
    using updateAssets_absent(1) [OF that] by (rule requests_to_assets)
  have pages: "requests_to ''pack/page'' (trace (updateWeb col inputs fs boundary unhandled net)) = []"
    if "\<not> existsSync fs (join [webDir, ''pages''])"
    using updatePages_absent(1) [OF that]
    by (auto simp: requests_to_page split: sum.splits)
  have none: "updateWeb col inputs fs boundary unhandled net =
      \<lparr>branches = [Settled Fulfilled, Settled Fulfilled], result = PFulfilled,
       trace = [StartGroup ''Updating web'', Warning ''No pages defined'',
                Warning ''Skip updating pack data'', Warning ''No assets defined'', EndGroup]\<rparr>"
    if "\<not> existsSync fs (join [webDir, ''pack.yml''])" "\<not> existsSync fs (join [webDir, ''assets''])"
      "\<not> existsSync fs (join [webDir, ''pages''])" "getApi inputs = Inr a" for a
  proof -
    have "updateWeb_start col inputs fs boundary unhandled =
        \<lparr>branches = [Settled Fulfilled, Settled Fulfilled], result = PFulfilled,
         trace = [StartGroup ''Updating web'', Warning ''No pages defined'',
                  Warning ''Skip updating pack data'', Warning ''No assets defined'', EndGroup]\<rparr>"
      using updateData_absent(2) [OF that(1,4)] updateAssets_absent(2) [OF that(2,4)]
        updatePages_absent(2) [OF that(3,4)]
      by (simp add: updateWeb_start_def promise_all_def all_fulfilled_def finish_def)
    then show ?thesis
      by (simp add: updateWeb_def foldl_deliver_settled)
  qed
  from data assets pages none updateData_absent(2) updateAssets_absent(2) updatePages_absent(2)
  show ?thesis by blast
qed

theorem updateWeb_skips_absent_witness:
  "\<not> existsSync Map.empty (join [webDir, ''pack.yml''])
   \<and> \<not> existsSync Map.empty (join [webDir, ''assets''])
   \<and> \<not> existsSync Map.empty (join [webDir, ''pages''])
   \<and> getApi demo_inputs = Inr demo_api
   \<and> updateWeb demo_col demo_inputs Map.empty ''xYz'' unhandled [(0, Ok JNull)] =
       \<lparr>branches = [Settled Fulfilled, Settled Fulfilled], result = PFulfilled,
        trace = [StartGroup ''Updating web'', Warning ''No pages defined'',
                 Warning ''Skip updating pack data'', Warning ''No assets defined'', EndGroup]\<rparr>"
  using updateWeb_skips_absent [of Map.empty demo_col demo_inputs "''xYz''" "[(0, Ok JNull)]"]
    demo_getApi
  by (simp add: existsSync_def)

text \<open>
  C3, as stated, fails: \<^verbatim>\<open>Promise.all\<close> does not wait for every branch. In the small pack
  the answer to the \<^verbatim>\<open>PUT\<close> of \<^verbatim>\<open>/pack\<close> is a failure and arrives first; \<^verbatim>\<open>updateWeb()\<close> is
  then rejected while the three page uploads and the assets upload are still in flight.
\<close>

theorem updateWeb_rejects_before_all_settled:
  "result (updateWeb demo_col demo_inputs demo_fs ''xYz'' unhandled [(3, Fail ''Network Error'' None)]) =
     PRejected (AxiosError ''Network Error'' ''/pack'' None)
   \<and> branches (updateWeb demo_col demo_inputs demo_fs ''xYz'' unhandled [(3, Fail ''Network Error'' None)]) ! 4 =
     Awaiting ''/pack/assets'' AssetsUpdated
   \<and> \<not> list_all settled
         (branches (updateWeb demo_col demo_inputs demo_fs ''xYz'' unhandled [(3, Fail ''Network Error'' None)]))"
  by (simp add: demo_data_fails)

text \<open>Which rejection wins, and what a rejected \<^verbatim>\<open>updateWeb()\<close> leaves behind.\<close>

lemma first_rejection_first:
  "i < length bs \<Longrightarrow> bs ! i = Settled (Rejected e) \<Longrightarrow>
   (\<forall>j<i. \<forall>e'. bs ! j \<noteq> Settled (Rejected e')) \<Longrightarrow> first_rejection bs = Some e"
proof (induction bs arbitrary: i)
  case Nil
  then show ?case by simp
next
  case (Cons b bs)
  show ?case
  proof (cases i)
    case 0
    with Cons.prems show ?thesis by simp
  next
    case (Suc n)
    with Cons.prems have n: "n < length bs" "bs ! n = Settled (Rejected e)" by simp_all
    have earlier: "\<forall>j<n. \<forall>e'. bs ! j \<noteq> Settled (Rejected e')"
      using Cons.prems(3) Suc by (metis Suc_less_eq nth_Cons_Suc)
    have head: "\<forall>e'. b \<noteq> Settled (Rejected e')"
      using Cons.prems(3) Suc by (metis nth_Cons_0 zero_less_Suc)
    have "first_rejection (b # bs) = first_rejection bs"
    proof (cases b)
      case (Settled out)
      with head show ?thesis by (cases out) simp_all
    next
      case (Awaiting u k)
      then show ?thesis by simp
    qed
    with Cons.IH [OF n earlier] show ?thesis by simp
  qed
qed

lemma updateWeb_nil:
  "updateWeb col inputs fs boundary h [] = updateWeb_start col inputs fs boundary h"
  by (simp add: updateWeb_def)

lemma updateWeb_append:
  "updateWeb col inputs fs boundary h (net @ later) =
   foldl (deliver h) (updateWeb col inputs fs boundary h net) later"
  by (simp add: updateWeb_def)

lemma updateWeb_thrown:
  assumes "updatePages col inputs fs = Inl e"
  shows "updateWeb col inputs fs boundary unhandled net =
    \<lparr>branches = [], result = PRejected e, trace = [StartGroup ''Updating web'']\<rparr>"
proof -
  have "updateWeb_start col inputs fs boundary unhandled =
      \<lparr>branches = [], result = PRejected e, trace = [StartGroup ''Updating web'']\<rparr>"
    using assms by (simp add: updateWeb_start_def unhandled_def)
  then show ?thesis
    by (simp add: updateWeb_def foldl_deliver_settled)
qed

lemma updateWeb_start_branches:
  assumes "updatePages col inputs fs = Inr (evs, pbs)"
  shows "branches (updateWeb_start col inputs fs boundary h) =
      pbs @ [snd (updateData col inputs fs), snd (updateAssets inputs fs boundary)]"
    and "result (updateWeb_start col inputs fs boundary h) =
      promise_all (pbs @ [snd (updateData col inputs fs), snd (updateAssets inputs fs boundary)])"
  using assms by (simp_all add: updateWeb_start_def Let_def split: prod.splits)

lemma updateWeb_start_result:
  "branches (updateWeb_start col inputs fs boundary h) \<noteq> [] \<Longrightarrow>
   result (updateWeb_start col inputs fs boundary h) =
     promise_all (branches (updateWeb_start col inputs fs boundary h))"
  by (auto simp: updateWeb_start_def Let_def split: sum.splits prod.splits)

lemma deliver_rejected: "result st = PRejected e \<Longrightarrow> result (deliver h st d) = PRejected e"
  by (simp add: deliver_def Let_def split: branch.splits prod.splits)

lemma foldl_deliver_rejected:
  "result st = PRejected e \<Longrightarrow> result (foldl (deliver h) st net) = PRejected e"
  by (induction net arbitrary: st) (simp_all add: deliver_rejected)

lemma deliver_pending:
  assumes "i < length (branches st)" and "branches st ! i = Awaiting u k"
    and "result st = PPending"
  shows "result (deliver h st (i, resp)) =
    (case snd (settle u k resp) of
       Rejected e \<Rightarrow> PRejected e
     | Fulfilled \<Rightarrow>
         if all_fulfilled ((branches st)[i := Settled Fulfilled]) then PFulfilled else PPending)"
  using assms by (simp add: deliver_def Let_def split: prod.splits outcome.splits)

lemma no_EndGroup_settle: "EndGroup \<notin> set (fst (settle u k resp))"
  by (cases resp; cases k) (auto simp: settle_def split: sum.splits)

lemma no_EndGroup_updateData: "EndGroup \<notin> set (fst (updateData col inputs fs))"
  by (auto simp: updateData_def Let_def split: sum.splits)

lemma no_EndGroup_updateAssets: "EndGroup \<notin> set (fst (updateAssets inputs fs boundary))"
  by (auto simp: updateAssets_def Let_def split: sum.splits)

lemma no_EndGroup_updatePages:
  "updatePages col inputs fs = Inr (evs, bs) \<Longrightarrow> EndGroup \<notin> set evs"
  by (auto simp: updatePages_def Let_def split: sum.splits if_splits)

lemma group_closed_start: "group_closed (updateWeb_start col inputs fs boundary unhandled)"
proof (cases "updatePages col inputs fs")
  case (Inl e)
  then show ?thesis
    by (simp add: group_closed_def updateWeb_start_def unhandled_def)
next
  case (Inr r)
  obtain evs pbs where r: "r = (evs, pbs)" by (cases r)
  obtain evs2 b2 where d: "updateData col inputs fs = (evs2, b2)" by (cases "updateData col inputs fs")
  obtain evs3 b3 where a: "updateAssets inputs fs boundary = (evs3, b3)"
    by (cases "updateAssets inputs fs boundary")
  have "EndGroup \<notin> set evs" "EndGroup \<notin> set evs2" "EndGroup \<notin> set evs3"
    using no_EndGroup_updatePages [OF Inr [unfolded r]] no_EndGroup_updateData [of col inputs fs]
      no_EndGroup_updateAssets [of inputs fs boundary] d a
    by simp_all
  then show ?thesis
    by (cases "promise_all (pbs @ [b2, b3])")
       (simp_all add: group_closed_def updateWeb_start_def Inr r d a Let_def finish_def unhandled_def)
qed

lemma group_closed_deliver:
  assumes "group_closed st"
  shows "group_closed (deliver unhandled st d)"
proof (cases "fst d < length (branches st)")
  case False
  with assms show ?thesis by (simp add: deliver_def Let_def)
next
  case True
  show ?thesis
  proof (cases "branches st ! fst d")
    case (Settled out)
    with True assms show ?thesis by (simp add: deliver_def Let_def)
  next
    case (Awaiting u k)
    obtain evs out where s: "settle u k (snd d) = (evs, out)" by (cases "settle u k (snd d)")
    have e: "EndGroup \<notin> set evs"
      using no_EndGroup_settle [of u k "snd d"] s by simp
    show ?thesis
    proof (cases "result st")
      case PPending
      with assms have t: "EndGroup \<notin> set (trace st)" by (simp add: group_closed_def)
      show ?thesis
        using True Awaiting s PPending e t
        by (cases out)
           (simp_all add: group_closed_def deliver_def Let_def finish_def unhandled_def)
    next
      case PFulfilled
      with assms have "EndGroup \<in> set (trace st)" by (simp add: group_closed_def)
      then show ?thesis
        using True Awaiting s PFulfilled
        by (simp add: group_closed_def deliver_def Let_def)
    next
      case (PRejected x)
      with assms have "EndGroup \<notin> set (trace st)" by (simp add: group_closed_def)
      then show ?thesis
        using True Awaiting s PRejected e
        by (simp add: group_closed_def deliver_def Let_def)
    qed
  qed
qed

lemma group_closed_foldl: "group_closed st \<Longrightarrow> group_closed (foldl (deliver unhandled) st net)"
  by (induction net arbitrary: st) (simp_all add: group_closed_deliver)

lemma group_closed_updateWeb: "group_closed (updateWeb col inputs fs boundary unhandled net)"
  by (simp add: updateWeb_def group_closed_foldl group_closed_start)

text \<open>
  C3, amended. \<^verbatim>\<open>updateWeb()\<close> awaits its branches with \<^verbatim>\<open>Promise.all\<close>, and that fails
  fast. When \<^verbatim>\<open>updatePages()\<close> throws, \<^verbatim>\<open>updateWeb()\<close> is rejected with that error after
  \<^verbatim>\<open>startGroup\<close> alone: there is no branch and no request. Otherwise the branches are the
  page uploads, then the metadata, then the assets; if some of them are rejected before
  any answer, \<^verbatim>\<open>updateWeb()\<close> is rejected with the error of the first of these in that
  order, and if none is, it is fulfilled when all are fulfilled and pending otherwise. An
  answer to a branch in flight while \<^verbatim>\<open>updateWeb()\<close> is pending rejects it with the error
  of that branch if the branch rejects, a failed response giving the transport error, and
  fulfils it if that was the last branch to be fulfilled; the other branches are left as
  they are, in flight if they were. Once rejected, \<^verbatim>\<open>updateWeb()\<close> stays rejected with
  the same error whatever arrives later. So at every moment: a rejected branch means a
  rejected \<^verbatim>\<open>updateWeb()\<close>, whatever its siblings did; a fulfilled \<^verbatim>\<open>updateWeb()\<close> means
  every branch is fulfilled; a pending one means a request is in flight; and the error
  of a rejected one is that of a rejected branch or the one \<^verbatim>\<open>updatePages()\<close> threw.
  Nothing cancels a branch: an answer that arrives after the rejection still settles its
  branch, and the requests of a run are those issued before the first answer. A rejected
  \<^verbatim>\<open>updateWeb()\<close> gives its caller that one error and nothing on the branches that
  succeeded; \<^verbatim>\<open>endGroup()\<close> has been called exactly when \<^verbatim>\<open>updateWeb()\<close> is fulfilled.
\<close>

theorem updateWeb_fails_fast:
  "((\<exists>e. Settled (Rejected e) \<in> set (branches (updateWeb col inputs fs boundary unhandled net)))
      \<longrightarrow> (\<exists>e. result (updateWeb col inputs fs boundary unhandled net) = PRejected e))
   \<and> (result (updateWeb col inputs fs boundary unhandled net) = PFulfilled
      \<longrightarrow> all_fulfilled (branches (updateWeb col inputs fs boundary unhandled net)))
   \<and> (result (updateWeb col inputs fs boundary unhandled net) = PPending
      \<longrightarrow> (\<exists>b\<in>set (branches (updateWeb col inputs fs boundary unhandled net)). \<not> settled b))
   \<and> (\<forall>e. result (updateWeb col inputs fs boundary unhandled net) = PRejected e
      \<longrightarrow> Settled (Rejected e) \<in> set (branches (updateWeb col inputs fs boundary unhandled net))
          \<or> updatePages col inputs fs = Inl e)
   \<and> (\<forall>i u k m d.
        i < length (branches (updateWeb col inputs fs boundary unhandled net))
        \<and> branches (updateWeb col inputs fs boundary unhandled net) ! i = Awaiting u k
        \<and> result (updateWeb col inputs fs boundary unhandled net) = PPending
      \<longrightarrow> result (updateWeb col inputs fs boundary unhandled (net @ [(i, Fail m d)])) =
            PRejected (AxiosError m u d)
          \<and> branches (updateWeb col inputs fs boundary unhandled (net @ [(i, Fail m d)])) =
            (branches (updateWeb col inputs fs boundary unhandled net))
              [i := Settled (Rejected (AxiosError m u d))])
   \<and> (\<forall>i u k resp.
        i < length (branches (updateWeb col inputs fs boundary unhandled net))
        \<and> branches (updateWeb col inputs fs boundary unhandled net) ! i = Awaiting u k
      \<longrightarrow> branches (updateWeb col inputs fs boundary unhandled (net @ [(i, resp)])) =
            (branches (updateWeb col inputs fs boundary unhandled net))
              [i := Settled (snd (settle u k resp))])
   \<and> requests (trace (updateWeb col inputs fs boundary unhandled net)) =
       requests (trace (updateWeb col inputs fs boundary unhandled []))
   \<and> (\<forall>e. updatePages col inputs fs = Inl e \<longrightarrow>
        updateWeb col inputs fs boundary unhandled net =
          \<lparr>branches = [], result = PRejected e, trace = [StartGroup ''Updating web'']\<rparr>)
   \<and> (\<forall>evs pbs. updatePages col inputs fs = Inr (evs, pbs) \<longrightarrow>
        branches (updateWeb col inputs fs boundary unhandled []) =
          pbs @ [snd (updateData col inputs fs), snd (updateAssets inputs fs boundary)])
   \<and> (\<forall>i e.
        i < length (branches (updateWeb col inputs fs boundary unhandled []))
        \<and> branches (updateWeb col inputs fs boundary unhandled []) ! i = Settled (Rejected e)
        \<and> (\<forall>j<i. \<forall>e'. branches (updateWeb col inputs fs boundary unhandled []) ! j
                          \<noteq> Settled (Rejected e'))
      \<longrightarrow> result (updateWeb col inputs fs boundary unhandled []) = PRejected e)
   \<and> ((\<exists>r. updatePages col inputs fs = Inr r)
        \<and> (\<forall>e. Settled (Rejected e) \<notin> set (branches (updateWeb col inputs fs boundary unhandled [])))
      \<longrightarrow> result (updateWeb col inputs fs boundary unhandled []) =
            (if all_fulfilled (branches (updateWeb col inputs fs boundary unhandled []))
             then PFulfilled else PPending))
   \<and> (\<forall>i u k resp.
        i < length (branches (updateWeb col inputs fs boundary unhandled net))
        \<and> branches (updateWeb col inputs fs boundary unhandled net) ! i = Awaiting u k
        \<and> result (updateWeb col inputs fs boundary unhandled net) = PPending
      \<longrightarrow> result (updateWeb col inputs fs boundary unhandled (net @ [(i, resp)])) =
            (case snd (settle u k resp) of
               Rejected e \<Rightarrow> PRejected e
             | Fulfilled \<Rightarrow>
                 if all_fulfilled ((branches (updateWeb col inputs fs boundary unhandled net))
                                     [i := Settled Fulfilled])
                 then PFulfilled else PPending))
   \<and> (\<forall>e later. result (updateWeb col inputs fs boundary unhandled net) = PRejected e
      \<longrightarrow> result (updateWeb col inputs fs boundary unhandled (net @ later)) = PRejected e)
   \<and> (EndGroup \<in> set (trace (updateWeb col inputs fs boundary unhandled net))) =
       (result (updateWeb col inputs fs boundary unhandled net) = PFulfilled)"
proof -
  let ?st = "updateWeb col inputs fs boundary unhandled net"
  let ?s0 = "updateWeb col inputs fs boundary unhandled []"
  have inv: "join_inv (thrown_by_pages col inputs fs) ?st"
    by (rule join_inv_updateWeb)
  have a: "(\<exists>e. Settled (Rejected e) \<in> set (branches ?st)) \<longrightarrow> (\<exists>e. result ?st = PRejected e)"
    and b: "result ?st = PFulfilled \<longrightarrow> all_fulfilled (branches ?st)"
    and c: "result ?st = PPending \<longrightarrow> (\<exists>b\<in>set (branches ?st). \<not> settled b)"
    using inv by (simp_all add: join_inv_def)
  have d: "\<forall>e. result ?st = PRejected e
      \<longrightarrow> Settled (Rejected e) \<in> set (branches ?st) \<or> updatePages col inputs fs = Inl e"
    using inv by (auto simp: join_inv_def thrown_by_pages_def split: sum.splits)
  have e: "\<forall>i u k m d. i < length (branches ?st) \<and> branches ?st ! i = Awaiting u k
        \<and> result ?st = PPending
      \<longrightarrow> result (updateWeb col inputs fs boundary unhandled (net @ [(i, Fail m d)])) =
            PRejected (AxiosError m u d)
          \<and> branches (updateWeb col inputs fs boundary unhandled (net @ [(i, Fail m d)])) =
            (branches ?st)[i := Settled (Rejected (AxiosError m u d))]"
    by (auto simp: updateWeb_snoc deliver_awaiting settle_def)
  have f: "\<forall>i u k resp. i < length (branches ?st) \<and> branches ?st ! i = Awaiting u k
      \<longrightarrow> branches (updateWeb col inputs fs boundary unhandled (net @ [(i, resp)])) =
            (branches ?st)[i := Settled (snd (settle u k resp))]"
    by (auto simp: updateWeb_snoc deliver_awaiting)
  have g: "requests (trace ?st) = requests (trace ?s0)"
    by (simp add: updateWeb_requests quiet_unhandled)
  have h: "\<forall>e. updatePages col inputs fs = Inl e \<longrightarrow>
      ?st = \<lparr>branches = [], result = PRejected e, trace = [StartGroup ''Updating web'']\<rparr>"
    by (simp add: updateWeb_thrown)
  have i: "\<forall>evs pbs. updatePages col inputs fs = Inr (evs, pbs) \<longrightarrow>
      branches ?s0 = pbs @ [snd (updateData col inputs fs), snd (updateAssets inputs fs boundary)]"
    by (simp add: updateWeb_nil updateWeb_start_branches)
  have j: "result ?s0 = PRejected e"
    if "i < length (branches ?s0)" "branches ?s0 ! i = Settled (Rejected e)"
      "\<forall>j<i. \<forall>e'. branches ?s0 ! j \<noteq> Settled (Rejected e')" for i e
  proof -
    have ne: "branches ?s0 \<noteq> []" using that(1) by auto
    have "first_rejection (branches ?s0) = Some e"
      using that by (rule first_rejection_first)
    then show ?thesis
      using updateWeb_start_result [of col inputs fs boundary unhandled] ne
      by (simp add: updateWeb_nil promise_all_def)
  qed
  have k: "result ?s0 = (if all_fulfilled (branches ?s0) then PFulfilled else PPending)"
    if "\<exists>r. updatePages col inputs fs = Inr r" "\<forall>e. Settled (Rejected e) \<notin> set (branches ?s0)"
  proof -
    from that(1) obtain evs pbs where r: "updatePages col inputs fs = Inr (evs, pbs)" by auto
    have "first_rejection (branches ?s0) = None"
      using that(2) by (simp add: first_rejection_None)
    then show ?thesis
      using updateWeb_start_branches [OF r, of boundary unhandled]
      by (simp add: updateWeb_nil promise_all_def)
  qed
  have l: "\<forall>i u k resp. i < length (branches ?st) \<and> branches ?st ! i = Awaiting u k
        \<and> result ?st = PPending
      \<longrightarrow> result (updateWeb col inputs fs boundary unhandled (net @ [(i, resp)])) =
            (case snd (settle u k resp) of
               Rejected e \<Rightarrow> PRejected e
             | Fulfilled \<Rightarrow>
                 if all_fulfilled ((branches ?st)[i := Settled Fulfilled])
                 then PFulfilled else PPending)"
    by (simp add: updateWeb_snoc deliver_pending)
  have m: "\<forall>e later. result ?st = PRejected e
      \<longrightarrow> result (updateWeb col inputs fs boundary unhandled (net @ later)) = PRejected e"
    by (simp add: updateWeb_append foldl_deliver_rejected)
  have n: "(EndGroup \<in> set (trace ?st)) = (result ?st = PFulfilled)"
    using group_closed_updateWeb [of col inputs fs boundary net] by (simp add: group_closed_def)
  from a b c d e f g h i j k l m n show ?thesis by blast
qed

theorem updateWeb_fails_fast_witness:
  "3 < length (branches (updateWeb demo_col demo_inputs demo_fs ''xYz'' unhandled []))
   \<and> branches (updateWeb demo_col demo_inputs demo_fs ''xYz'' unhandled []) ! 3 =
       Awaiting ''/pack'' DataUpdated
   \<and> result (updateWeb demo_col demo_inputs demo_fs ''xYz'' unhandled []) = PPending
   \<and> result (updateWeb demo_col demo_inputs demo_fs ''xYz'' unhandled
               ([] @ [(3, Fail ''Network Error'' None)])) =
       PRejected (AxiosError ''Network Error'' ''/pack'' None)
   \<and> branches (updateWeb demo_col demo_inputs demo_fs ''xYz'' unhandled
                 ([] @ [(3, Fail ''Network Error'' None)])) ! 4 =
       Awaiting ''/pack/assets'' AssetsUpdated"
proof -
  let ?s0 = "updateWeb demo_col demo_inputs demo_fs ''xYz'' unhandled []"
  have p: "3 < length (branches ?s0) \<and> branches ?s0 ! 3 = Awaiting ''/pack'' DataUpdated
      \<and> result ?s0 = PPending"
    by (simp add: updateWeb_def demo_start)
  from updateWeb_fails_fast [of demo_col demo_inputs demo_fs "''xYz''" "[]"]
  have "\<forall>i u k m d.
        i < length (branches ?s0) \<and> branches ?s0 ! i = Awaiting u k \<and> result ?s0 = PPending
      \<longrightarrow> result (updateWeb demo_col demo_inputs demo_fs ''xYz'' unhandled ([] @ [(i, Fail m d)])) =
            PRejected (AxiosError m u d)
          \<and> branches (updateWeb demo_col demo_inputs demo_fs ''xYz'' unhandled ([] @ [(i, Fail m d)])) =
            (branches ?s0)[i := Settled (Rejected (AxiosError m u d))]"
    by (elim conjE)
  with p have "result (updateWeb demo_col demo_inputs demo_fs ''xYz'' unhandled
                 ([] @ [(3, Fail ''Network Error'' None)])) =
        PRejected (AxiosError ''Network Error'' ''/pack'' None)
      \<and> branches (updateWeb demo_col demo_inputs demo_fs ''xYz'' unhandled
                 ([] @ [(3, Fail ''Network Error'' None)])) =
        (branches ?s0)[3 := Settled (Rejected (AxiosError ''Network Error'' ''/pack'' None))]"
    by blast
  moreover have "branches ?s0 ! 4 = Awaiting ''/pack/assets'' AssetsUpdated"
    by (simp add: updateWeb_def demo_start)
  ultimately show ?thesis
    using p by (simp del: append.simps)
qed

text \<open>
  C9. The requests of a run of \<^verbatim>\<open>updateWeb()\<close> are determined by the inputs, the file
  system and the parsers: two runs on the same ones issue the same requests in the same
  order, with the same client, endpoint and body, whatever the network answers to either
  and in whatever order, and whatever boundary each form draws; when the boundaries are
  equal the requests are equal also in their headers.
\<close>

theorem updateWeb_repeatable:
  "map wire (requests (trace (updateWeb col inputs fs boundary1 unhandled net1))) =
     map wire (requests (trace (updateWeb col inputs fs boundary2 unhandled net2)))
   \<and> requests (trace (updateWeb col inputs fs boundary unhandled net1)) =
     requests (trace (updateWeb col inputs fs boundary unhandled net2))"
proof -
  have w: "map wire (requests (fst (updateAssets inputs fs boundary1))) =
      map wire (requests (fst (updateAssets inputs fs boundary2)))"
    by (simp add: updateAssets_def Let_def wire_def put_def split: sum.splits)
  have "map wire (requests (trace (updateWeb_start col inputs fs boundary1 unhandled))) =
      map wire (requests (trace (updateWeb_start col inputs fs boundary2 unhandled)))"
    using w by (simp add: updateWeb_start_requests quiet_unhandled split: sum.splits prod.splits)
  then show ?thesis
    by (simp add: updateWeb_requests quiet_unhandled)
qed

theorem updateWeb_repeatable_witness:
  "map wire (requests (trace (updateWeb demo_col demo_inputs demo_fs ''xYz'' unhandled
                                [(3, Fail ''Network Error'' None)]))) =
     map wire (requests (trace (updateWeb demo_col demo_inputs demo_fs ''Abc'' unhandled [])))"
  using updateWeb_repeatable [of demo_col demo_inputs demo_fs "''xYz''"
      "[(3, Fail ''Network Error'' None)]" "''Abc''" "[]"]
  by blast

section \<open>Properties of the entry point\<close>

lemma createRelease_fulfilled:
  assumes "snd (createRelease col inputs fs rel dir resp) = Inr d"
  shows "\<exists>req. fst (createRelease col inputs fs rel dir resp) =
           [Request req,
            Info (''Created release for version '' @ [CHR 0x27] @ tag_name rel @ [CHR 0x27])]
         \<and> url req = ''/pack/release/'' @ tag_name rel"
  using assms
  by (auto simp: createRelease_def Let_def put_def split: sum.splits if_splits response.splits)

lemma createRelease_urls:
  "\<forall>r\<in>set (requests (fst (createRelease col inputs fs rel dir resp))).
     url r = ''/pack/release/'' @ tag_name rel"
  by (auto simp: createRelease_def Let_def put_def split: sum.splits if_splits response.splits)

lemma trace_prepend: "trace (prepend evs st) = evs @ trace st"
  by (simp add: prepend_def)

lemma result_prepend: "result (prepend evs st) = result st"
  by (simp add: prepend_def)

lemma quiet_on_error: "quiet on_error"
  by (auto simp: quiet_def on_error_def split: error.splits)









lemma request_at:
  assumes "i < length evs" and "evs ! i = Request r"
  shows "r \<in> set (requests evs)"
proof -
  have "evs = take i evs @ Request r # drop (Suc i) evs"
    using assms by (metis id_take_nth_drop)
  then have "requests evs = requests (take i evs) @ r # requests (drop (Suc i) evs)"
    by (metis requests.simps(2) requests_append)
  then show ?thesis by simp
qed

text \<open>The release of the small pack, accepted and refused by the backend.\<close>

lemma demo_strip: "strip demo_col r = descriptive r"
  by (simp add: demo_col_def)

lemma demo_createRelease_ok:
  "createRelease demo_col demo_inputs demo_fs demo_release [] (Ok d) =
     ([Request (put demo_api ''/pack/release/v1.2.0''
                  (JsonBody (JObj [(''installedAddons'', JArr [demo_addon 1 10 ''mod1.jar'']),
                                   (''name'', JStr ''Release 1.2.0''), (''body'', JStr ''Notes''),
                                   (''prerelease'', JBool False)])) []),
       Info (''Created release for version '' @ [CHR 0x27] @ ''v1.2.0'' @ [CHR 0x27])],
      Inr d)"
  using demo_manifest_file
  by (simp add: createRelease_def Let_def demo_getApi existsSync_def readFileSync_def
      demo_manifest_parse demo_filtered spread_def demo_strip demo_release_def)







text \<open>
  C7. On a release event \<^verbatim>\<open>web()\<close> first runs \<^verbatim>\<open>createRelease\<close> to its end. If it
  rejects, \<^verbatim>\<open>web()\<close> rejects with the same error and \<^verbatim>\<open>updateWeb()\<close> is never called.
  If it returns, its effects, the request and then the log line that follows the
  response, come first and the effects of \<^verbatim>\<open>updateWeb()\<close> follow. The effects of
  \<^verbatim>\<open>createRelease\<close> hold no request to \<^verbatim>\<open>/pack\<close>, \<^verbatim>\<open>/pack/assets\<close> or \<^verbatim>\<open>pack/page\<close>; so
  with a handler that issues no request, every such request of the run stands after
  all effects of a \<^verbatim>\<open>createRelease\<close> that returned.
\<close>

theorem web_release_first:
  assumes "eventName ctx = ''release''" and "quiet h"
  shows "(\<forall>e. snd (createRelease col inputs fs (payload_release ctx) [] resp) = Inl e \<longrightarrow>
            web col inputs fs ctx resp boundary h net =
              \<lparr>branches = [], result = PRejected e,
               trace = fst (createRelease col inputs fs (payload_release ctx) [] resp) @ h e\<rparr>)
       \<and> (\<forall>d. snd (createRelease col inputs fs (payload_release ctx) [] resp) = Inr d \<longrightarrow>
            trace (web col inputs fs ctx resp boundary h net) =
              fst (createRelease col inputs fs (payload_release ctx) [] resp)
                @ trace (updateWeb col inputs fs boundary h net)
            \<and> (\<exists>req. fst (createRelease col inputs fs (payload_release ctx) [] resp) =
                  [Request req,
                   Info (''Created release for version '' @ [CHR 0x27]
                         @ tag_name (payload_release ctx) @ [CHR 0x27])]))
       \<and> (\<forall>i r. i < length (trace (web col inputs fs ctx resp boundary h net))
              \<and> trace (web col inputs fs ctx resp boundary h net) ! i = Request r
              \<and> url r \<in> {''/pack'', ''/pack/assets'', ''pack/page''}
            \<longrightarrow> length (fst (createRelease col inputs fs (payload_release ctx) [] resp)) \<le> i
                \<and> (\<exists>d. snd (createRelease col inputs fs (payload_release ctx) [] resp) = Inr d))"
proof -
  let ?c = "createRelease col inputs fs (payload_release ctx) [] resp"
  let ?w = "web col inputs fs ctx resp boundary h net"
  have a: "\<forall>e. snd ?c = Inl e \<longrightarrow>
      ?w = \<lparr>branches = [], result = PRejected e, trace = fst ?c @ h e\<rparr>"
    using assms(1) by (auto simp: web_def split: prod.splits)
  have b1: "\<forall>d. snd ?c = Inr d \<longrightarrow> trace ?w = fst ?c @ trace (updateWeb col inputs fs boundary h net)"
    using assms(1) by (auto simp: web_def trace_prepend split: prod.splits)
  have b2: "\<forall>d. snd ?c = Inr d \<longrightarrow>
      (\<exists>req. fst ?c =
         [Request req,
          Info (''Created release for version '' @ [CHR 0x27]
                @ tag_name (payload_release ctx) @ [CHR 0x27])])"
    using createRelease_fulfilled by blast
  have early: False
    if i: "i < length (fst ?c)" and r: "fst ?c ! i = Request r"
      and u: "url r \<in> {''/pack'', ''/pack/assets'', ''pack/page''}" for i r
  proof -
    have "url r = ''/pack/release/'' @ tag_name (payload_release ctx)"
      using request_at [OF i r] createRelease_urls by blast
    with u show False by auto
  qed
  have c: "length (fst ?c) \<le> i \<and> (\<exists>d. snd ?c = Inr d)"
    if i: "i < length (trace ?w)" and r: "trace ?w ! i = Request r"
      and u: "url r \<in> {''/pack'', ''/pack/assets'', ''pack/page''}" for i r
  proof (cases "snd ?c")
    case (Inl e)
    with a have t: "trace ?w = fst ?c @ h e" by simp
    show ?thesis
    proof (cases "i < length (fst ?c)")
      case True
      with r t have "fst ?c ! i = Request r" by (simp add: nth_append)
      with early [OF True _ u] show ?thesis by blast
    next
      case False
      with i r t have "i - length (fst ?c) < length (h e)" "h e ! (i - length (fst ?c)) = Request r"
        by (simp_all add: nth_append)
      then have "r \<in> set (requests (h e))" by (rule request_at)
      with assms(2) show ?thesis by (simp add: quiet_def)
    qed
  next
    case (Inr d)
    show ?thesis
    proof (cases "i < length (fst ?c)")
      case True
      with r b1 Inr have "fst ?c ! i = Request r" by (simp add: nth_append)
      with early [OF True _ u] show ?thesis by blast
    next
      case False
      with Inr show ?thesis by simp
    qed
  qed
  from a b1 b2 c show ?thesis by blast
qed

theorem web_release_first_witness:
  "eventName demo_context = ''release'' \<and> quiet on_error
   \<and> trace (web demo_col demo_inputs demo_fs demo_context (Ok JNull) ''xYz'' on_error []) =
       [Request (put demo_api ''/pack/release/v1.2.0''
                   (JsonBody (JObj [(''installedAddons'', JArr [demo_addon 1 10 ''mod1.jar'']),
                                    (''name'', JStr ''Release 1.2.0''), (''body'', JStr ''Notes''),
                                    (''prerelease'', JBool False)])) []),
        Info (''Created release for version '' @ [CHR 0x27] @ ''v1.2.0'' @ [CHR 0x27]),
        StartGroup ''Updating web'',
        Request (put demo_api ''pack/page'' (JsonBody (JObj [(''title'', JStr ''About'')])) []),
        Request (put demo_api ''pack/page'' (JsonBody (JObj [(''title'', JStr ''Home'')])) []),
        Request (put demo_api ''pack/page'' (JsonBody (JObj [])) []),
        Request (put demo_api ''/pack'' (JsonBody (JObj [(''name'', JStr ''Demo pack'')])) []),
        Request (put demo_api ''/pack/assets''
                   (FormBody [(''banner.jpg'', ReadStream ''web/assets/banner.jpg''),
                              (''logo.png'', ReadStream ''web/assets/logo.png'')])
                   (getHeaders ''xYz''))]"
proof -
  have e: "eventName demo_context = ''release''" by (simp add: demo_context_def)
  have p: "payload_release demo_context = demo_release" by (simp add: demo_context_def)
  from web_release_first [OF e quiet_on_error, of demo_col demo_inputs demo_fs "Ok JNull" "''xYz''" "[]"]
  have "trace (web demo_col demo_inputs demo_fs demo_context (Ok JNull) ''xYz'' on_error []) =
      fst (createRelease demo_col demo_inputs demo_fs demo_release [] (Ok JNull))
        @ trace (updateWeb demo_col demo_inputs demo_fs ''xYz'' on_error [])"
    by (simp add: p demo_createRelease_ok)
  then show ?thesis
    using e quiet_on_error by (simp add: demo_createRelease_ok updateWeb_def demo_start)
qed

























end
